theory Spec2Isabelle
  imports Complex_Main
begin

section \<open>JavaScript string and value helpers\<close>

text \<open>
  Strings are modelled as \<^typ>\<open>string\<close>; the addresses, hashes and hex payloads the bridge
  handles are ASCII, so one \<^typ>\<open>char\<close> stands for one UTF-16 code unit of the source.
  An optional or nullable string is a \<^typ>\<open>string option\<close>.
\<close>

text \<open>\<^verbatim>\<open>s.startsWith(p)\<close>\<close>

definition startsWith :: "string \<Rightarrow> string \<Rightarrow> bool" where
  "startsWith s p = (take (length p) s = p)"

text \<open>
  JavaScript truthiness of an optional string: \<^verbatim>\<open>undefined\<close>, \<^verbatim>\<open>null\<close> and the empty
  string are falsy. \<open>orNull\<close> is the idiom \<^verbatim>\<open>v || null\<close>.
\<close>

fun truthy :: "string option \<Rightarrow> bool" where
  "truthy None = False"
| "truthy (Some s) = (s \<noteq> [])"

definition orNull :: "string option \<Rightarrow> string option" where
  "orNull v = (if truthy v then v else None)"


section \<open>Data model (service.ts)\<close>

datatype BridgeStatus = Initiated | Burned | Attested | Minting | Completed | Failed

datatype AttestationStatus = Pending | Complete | AttestationFailed

text \<open>
  One row of \<^verbatim>\<open>bridge_transactions\<close>. \<open>lastAttestationCheck\<close> is a column of the table that
  the \<^verbatim>\<open>BridgeTransaction\<close> interface does not expose; timestamps are clock readings.
\<close>

record BridgeTransaction =
  userAddress :: string
  sourceDomainId :: int
  destDomainId :: int
  amount :: string
  recipientAddress :: string
  burnTxHash :: "string option"
  messageHash :: "string option"
  messageBytes :: "string option"
  nonce :: "string option"
  attestation :: "string option"
  attestationStatus :: AttestationStatus
  attestationAttempts :: nat
  lastAttestationCheck :: "nat option"
  mintTxHash :: "string option"
  status :: BridgeStatus
  errorMessage :: "string option"
  createdAt :: nat
  updatedAt :: nat

text \<open>The table, keyed by the row id. An \<^verbatim>\<open>UPDATE ... WHERE id = $n\<close> on a missing id changes nothing.\<close>

type_synonym store = "string \<rightharpoonup> BridgeTransaction"

definition update_row :: "store \<Rightarrow> string \<Rightarrow> (BridgeTransaction \<Rightarrow> BridgeTransaction) \<Rightarrow> store" where
  "update_row st bridgeId f = (case st bridgeId of None \<Rightarrow> st | Some tx \<Rightarrow> st(bridgeId \<mapsto> f tx))"

text \<open>
  Failures. The source throws \<^verbatim>\<open>Error\<close> objects told apart by their message; each
  constructor stands for one of them:
  \<^item> \<open>InvalidPair\<close>: \<^verbatim>\<open>'Invalid bridge pair: must involve Starknet'\<close>
  \<^item> \<open>UnknownChain\<close>: \<^verbatim>\<open>'Invalid source or destination domain'\<close> and the builders' \<^verbatim>\<open>'Unknown ... domain'\<close>,
    \<^verbatim>\<open>'... chain config not found'\<close>
  \<^item> \<open>NotFound\<close>: \<^verbatim>\<open>'Bridge transaction not found'\<close>
  \<^item> \<open>AlreadyBurned\<close>: \<^verbatim>\<open>'Burn transaction already recorded'\<close>
  \<^item> \<open>MissingField\<close>: \<^verbatim>\<open>'Missing required field: txHash'\<close>
  \<^item> \<open>UnsupportedRoute\<close>: \<^verbatim>\<open>'Cannot bridge from ... to ...'\<close>, \<^verbatim>\<open>'... is not an EVM chain'\<close>,
    \<^verbatim>\<open>'Unsupported source chain type'\<close>
  \<^item> \<open>MessageApiError\<close>: a non-404, non-2xx answer of the attestation service
  \<^item> \<open>FetchFailed\<close>: the HTTP call or the JSON decoding itself threw
  \<^item> \<open>SyntaxError\<close>, \<open>RangeError\<close>: thrown by \<^verbatim>\<open>BigInt(...)\<close> and by \<^verbatim>\<open>cairo.uint256\<close>
  \<^item> \<open>EncodingError\<close>: thrown by a library encoder (viem, @solana/web3.js)
  \<^item> \<open>StoreUnavailable\<close>: the first read of the store threw
  \<^item> \<open>InsertRejected\<close>: the \<^verbatim>\<open>INSERT\<close> of a new row threw
\<close>

datatype error =
    InvalidPair | UnknownChain | NotFound | AlreadyBurned | MissingField
  | UnsupportedRoute | MessageApiError | FetchFailed | SyntaxError | RangeError
  | EncodingError | StoreUnavailable | InsertRejected


section \<open>Attestation client (attestation.ts)\<close>

text \<open>One element of \<^verbatim>\<open>MessageResponseV2.messages\<close>; a JSON field that is absent or null is \<open>None\<close>.\<close>

record V2Message =
  v2_message :: string
  v2_attestation :: "string option"
  v2_eventNonce :: string
  v2_status :: string

text \<open>What \<^verbatim>\<open>fetch(url)\<close> and \<^verbatim>\<open>response.json()\<close> produce: the input the collaborator supplies.\<close>

datatype body = InvalidJson | Json "V2Message list option"

datatype http_result = NetworkError | Response nat body

record MessageResponse =
  message :: string
  eventNonce :: string
  resp_status :: string
  resp_attestation :: "string option"

definition hasValidAttestation :: "V2Message \<Rightarrow> bool" where
  "hasValidAttestation msg =
     (truthy (v2_attestation msg) \<and> v2_attestation msg \<noteq> Some ''PENDING''
      \<and> startsWith (the (v2_attestation msg)) ''0x'')"

definition getMessageFromTx :: "http_result \<Rightarrow> error + MessageResponse option" where
  "getMessageFromTx r =
     (case r of
        NetworkError \<Rightarrow> Inl FetchFailed
      | Response code b \<Rightarrow>
          if code = 404 then Inr None
          else if \<not> (200 \<le> code \<and> code \<le> 299) then Inl MessageApiError
          else (case b of
                  InvalidJson \<Rightarrow> Inl FetchFailed
                | Json None \<Rightarrow> Inr None
                | Json (Some []) \<Rightarrow> Inr None
                | Json (Some (msg # rest)) \<Rightarrow>
                    Inr (Some \<lparr> message = v2_message msg,
                                eventNonce = v2_eventNonce msg,
                                resp_status = v2_status msg,
                                resp_attestation =
                                  (if hasValidAttestation msg then v2_attestation msg else None) \<rparr>)))"

text \<open>
  The library functions the service calls. \<open>keccak256\<close> is viem's; it throws on a string that
  is not hex, which is \<open>None\<close> here.
\<close>

record ext =
  keccak256 :: "string \<Rightarrow> string option"

definition computeMessageHash :: "'a ext_scheme \<Rightarrow> string \<Rightarrow> string option" where
  "computeMessageHash e messageBytes' =
     keccak256 e (if startsWith messageBytes' ''0x'' then messageBytes' else ''0x'' @ messageBytes')"


section \<open>Bridge orchestrator (service.ts)\<close>

definition getTransaction :: "store \<Rightarrow> string \<Rightarrow> BridgeTransaction option" where
  "getTransaction st bridgeId = st bridgeId"

text \<open>
  \<open>recordBurnTx\<close>. The message lookup runs only when no message bytes were passed, and its
  failure is swallowed; \<open>computeMessageHash\<close> runs outside that \<^verbatim>\<open>try\<close>, so its failure propagates
  before anything is written.
\<close>

definition recordBurnTx ::
  "'a ext_scheme \<Rightarrow> store \<Rightarrow> nat \<Rightarrow> string \<Rightarrow> string \<Rightarrow> string option \<Rightarrow> string option
     \<Rightarrow> http_result \<Rightarrow> store \<times> (error + unit)" where
  "recordBurnTx e st now bridgeId txHash messageBytes' nonce' r =
     (case getTransaction st bridgeId of
        None \<Rightarrow> (st, Inl NotFound)
      | Some tx \<Rightarrow>
          let (finalMessageBytes, finalNonce) =
                (if \<not> truthy messageBytes' then
                   (case getMessageFromTx r of
                      Inr (Some messageData) \<Rightarrow> (Some (message messageData), Some (eventNonce messageData))
                    | _ \<Rightarrow> (messageBytes', nonce'))
                 else (messageBytes', nonce'));
              hashed = (if truthy finalMessageBytes
                        then map_option Some (computeMessageHash e (the finalMessageBytes))
                        else Some None)
          in (case hashed of
                None \<Rightarrow> (st, Inl EncodingError)
              | Some messageHash' \<Rightarrow>
                  (update_row st bridgeId (\<lambda>row. row\<lparr> burnTxHash := Some txHash,
                                                     messageBytes := orNull finalMessageBytes,
                                                     messageHash := messageHash',
                                                     nonce := orNull finalNonce,
                                                     status := Burned,
                                                     updatedAt := now \<rparr>),
                   Inr ())))"

text \<open>
  What the environment supplies to one \<open>checkAttestation\<close> call: either the first read of the
  store throws (the only failure that escapes the method), or the attestation service answers.
\<close>

datatype collaborator = StoreDown | Http http_result

definition checkAttestation ::
  "'a ext_scheme \<Rightarrow> store \<Rightarrow> nat \<Rightarrow> string \<Rightarrow> collaborator \<Rightarrow> store \<times> (error + string option)" where
  "checkAttestation e st now bridgeId c =
     (case c of
        StoreDown \<Rightarrow> (st, Inl StoreUnavailable)
      | Http r \<Rightarrow>
         (case getTransaction st bridgeId of
            None \<Rightarrow> (st, Inr None)
          | Some tx \<Rightarrow>
              if attestationStatus tx = Complete \<or> status tx = Completed then (st, Inr (attestation tx))
              else if \<not> truthy (burnTxHash tx) then (st, Inr None)
              else (case getMessageFromTx r of
                      Inl err \<Rightarrow> (st, Inr None)
                    | Inr None \<Rightarrow>
                        (update_row st bridgeId
                           (\<lambda>row. row\<lparr> attestationAttempts := attestationAttempts row + 1,
                                        lastAttestationCheck := Some now \<rparr>),
                         Inr None)
                    | Inr (Some messageData) \<Rightarrow>
                        (case computeMessageHash e (message messageData) of
                           None \<Rightarrow> (st, Inr None)
                         | Some messageHash' \<Rightarrow>
                             if truthy (resp_attestation messageData) then
                               (update_row st bridgeId
                                  (\<lambda>row. row\<lparr> messageBytes := Some (message messageData),
                                               messageHash := Some messageHash',
                                               nonce := Some (eventNonce messageData),
                                               attestation := resp_attestation messageData,
                                               attestationStatus := Complete,
                                               status := Attested,
                                               attestationAttempts := attestationAttempts row + 1,
                                               lastAttestationCheck := Some now,
                                               updatedAt := now \<rparr>),
                                Inr (resp_attestation messageData))
                             else
                               (update_row st bridgeId
                                  (\<lambda>row. row\<lparr> messageBytes := Some (message messageData),
                                               messageHash := Some messageHash',
                                               nonce := Some (eventNonce messageData),
                                               attestationAttempts := attestationAttempts row + 1,
                                               lastAttestationCheck := Some now,
                                               updatedAt := now \<rparr>),
                                Inr None)))))"

definition recordMintTx :: "store \<Rightarrow> nat \<Rightarrow> string \<Rightarrow> string \<Rightarrow> store" where
  "recordMintTx st now bridgeId txHash =
     update_row st bridgeId (\<lambda>row. row\<lparr> mintTxHash := Some txHash, status := Completed, updatedAt := now \<rparr>)"

definition markFailed :: "store \<Rightarrow> nat \<Rightarrow> string \<Rightarrow> string \<Rightarrow> store" where
  "markFailed st now bridgeId errorMessage' =
     update_row st bridgeId (\<lambda>row. row\<lparr> status := Failed, errorMessage := Some errorMessage', updatedAt := now \<rparr>)"


section \<open>Burn route (routes/api/bridge/[id]/burn)\<close>

text \<open>
  The \<^verbatim>\<open>POST\<close> handler: the request body's \<^verbatim>\<open>txHash\<close>, \<^verbatim>\<open>messageBytes\<close> and \<^verbatim>\<open>nonce\<close>, the guard
  on an already recorded burn hash, then the service call. Every failure answers 400, but for
  an unknown id, which answers 404; the result keeps the failure itself.
\<close>

definition POST_burn ::
  "'a ext_scheme \<Rightarrow> store \<Rightarrow> nat \<Rightarrow> string \<Rightarrow> string option \<Rightarrow> string option \<Rightarrow> string option
     \<Rightarrow> http_result \<Rightarrow> store \<times> (error + unit)" where
  "POST_burn e st now bridgeId txHash messageBytes' nonce' r =
     (if \<not> truthy txHash then (st, Inl MissingField)
      else (case getTransaction st bridgeId of
              None \<Rightarrow> (st, Inl NotFound)
            | Some tx \<Rightarrow>
                if truthy (burnTxHash tx) then (st, Inl AlreadyBurned)
                else recordBurnTx e st now bridgeId (the txHash) messageBytes' nonce' r))"



section \<open>Operation sequences on one transfer\<close>









section \<open>Example data\<close>

definition example_tx :: BridgeTransaction where
  "example_tx = \<lparr> userAddress = ''0x01'', sourceDomainId = 25, destDomainId = 0, amount = ''1000000'',
       recipientAddress = ''0x02'', burnTxHash = None, messageHash = None, messageBytes = None,
       nonce = None, attestation = None, attestationStatus = Pending, attestationAttempts = 0,
       lastAttestationCheck = None, mintTxHash = None, status = Initiated, errorMessage = None,
       createdAt = 0, updatedAt = 0 \<rparr>"

definition example_store :: store where
  "example_store = Map.empty(''t1'' \<mapsto> example_tx)"

definition example_ext :: ext where
  "example_ext = \<lparr> keccak256 = Some \<rparr>"

definition attested_message :: V2Message where
  "attested_message = \<lparr> v2_message = ''0xab'', v2_attestation = Some ''0xcd'',
       v2_eventNonce = ''7'', v2_status = ''complete'' \<rparr>"

definition pending_message :: V2Message where
  "pending_message = \<lparr> v2_message = ''0xab'', v2_attestation = Some ''PENDING'',
       v2_eventNonce = ''7'', v2_status = ''pending_confirmations'' \<rparr>"

definition attested_answer :: http_result where
  "attested_answer = Response 200 (Json (Some [attested_message]))"

definition complete_tx :: BridgeTransaction where
  "complete_tx = example_tx \<lparr> burnTxHash := Some ''0xb1'', messageBytes := Some ''0xab'',
       messageHash := Some ''0xab'', nonce := Some ''7'', attestation := Some ''0xcd'',
       attestationStatus := Complete, attestationAttempts := 1, lastAttestationCheck := Some 2,
       status := Attested, updatedAt := 2 \<rparr>"

definition complete_store :: store where
  "complete_store = Map.empty(''t1'' \<mapsto> complete_tx)"


section \<open>Decimal rendering of numbers\<close>

text \<open>\<^verbatim>\<open>n.toString()\<close> for a non-negative integer: its decimal digits.\<close>

definition digit_char :: "nat \<Rightarrow> char" where
  "digit_char d = char_of (48 + d)"

fun show_nat :: "nat \<Rightarrow> string" where
  "show_nat n = (if n < 10 then [digit_char n] else show_nat (n div 10) @ [digit_char (n mod 10)])"

declare show_nat.simps [simp del]


section \<open>Double-precision arithmetic\<close>

text \<open>
  Delays are JavaScript numbers, that is IEEE 754 binary64 values, and every arithmetic
  operation of the source rounds its exact result to the nearest such value, ties to the
  even significand. \<open>round64\<close> is that rounding on the non-negative rationals: a value in
  \<open>[2 ^ 52, 2 ^ 53)\<close> is rounded to the nearest integer (\<open>round_even\<close>), a larger one is
  halved first (\<open>round64_big\<close>), a smaller one is doubled first, at most 1074 times
  (\<open>round64_up\<close>), which is the spacing \<open>2 ^ -1074\<close> of the subnormal numbers. Overflow to
  \<^verbatim>\<open>Infinity\<close> is not modelled: the only value of the poller that can overflow is
  \<^verbatim>\<open>Math.pow(1.5, attempts)\<close>, and \<^verbatim>\<open>Math.min\<close> replaces it, infinite or not, by the cap.
\<close>

definition round_even :: "rat \<Rightarrow> int" where
  "round_even q =
     (let f = \<lfloor>q\<rfloor>; d = q - of_int f
      in if d < 1 / 2 then f else if 1 / 2 < d then f + 1 else if even f then f else f + 1)"

function round64_big :: "rat \<Rightarrow> rat" where
  "round64_big x = (if x < 2 ^ 53 then of_int (round_even x) else 2 * round64_big (x / 2))"
  by pat_completeness auto
termination
proof (relation "measure (\<lambda>x. nat \<lfloor>x\<rfloor>)")
  show "wf (measure (\<lambda>x::rat. nat \<lfloor>x\<rfloor>))" by simp
next
  fix x :: rat
  assume a: "\<not> x < 2 ^ 53"
  then have x: "2 \<le> x" by simp
  have "x / 2 \<le> x - 1" using x by simp
  then have "\<lfloor>x / 2\<rfloor> \<le> \<lfloor>x - 1\<rfloor>" by (rule floor_mono)
  then have "\<lfloor>x / 2\<rfloor> < \<lfloor>x\<rfloor>" by simp
  moreover have "0 \<le> \<lfloor>x\<rfloor>" using x by simp
  ultimately show "(x / 2, x) \<in> measure (\<lambda>x. nat \<lfloor>x\<rfloor>)" using x by simp
qed

declare round64_big.simps [simp del]

fun round64_up :: "nat \<Rightarrow> rat \<Rightarrow> rat" where
  "round64_up k x =
     (if 2 ^ 52 \<le> x then round64_big x
      else if k = 0 then of_int (round_even x)
      else round64_up (k - 1) (2 * x) / 2)"

declare round64_up.simps [simp del]

definition round64 :: "rat \<Rightarrow> rat" where
  "round64 x = round64_up 1074 x"


section \<open>Attestation poller (attestation-worker.ts)\<close>

text \<open>
  \<^verbatim>\<open>calculateBackoff\<close> is computed in double precision, each operation rounded by
  \<open>round64\<close>: \<^verbatim>\<open>Math.pow(1.5, attempts)\<close> (taken as the correctly rounded power; \<open>1.5\<close> is
  exact, and so is the power up to 8 attempts, the last below the cap), its product with
  \<open>2000\<close>, the literal \<^verbatim>\<open>0.3\<close> (the double nearest to \<open>3 / 10\<close>),
  the two products of \<^verbatim>\<open>Math.random() * 0.3 * exponentialDelay\<close> from left to right, and the
  final sum. \<^verbatim>\<open>Math.min\<close> and \<^verbatim>\<open>Math.floor\<close> are exact. \<open>random\<close> is the draw of
  \<^verbatim>\<open>Math.random()\<close>, a number in \<open>[0, 1)\<close>.
\<close>

record AttestationJob =
  job_id :: string
  job_messageHash :: string
  attempts :: nat
  nextRetry :: int

type_synonym jobs = "string \<rightharpoonup> AttestationJob"

definition BASE_DELAY :: rat where "BASE_DELAY = 2000"
definition MAX_DELAY :: rat where "MAX_DELAY = 60000"
definition MAX_ATTEMPTS :: nat where "MAX_ATTEMPTS = 120"

definition exponentialDelay :: "nat \<Rightarrow> rat" where
  "exponentialDelay attempts' = min (round64 (BASE_DELAY * round64 ((3 / 2) ^ attempts'))) MAX_DELAY"

definition calculateBackoff :: "nat \<Rightarrow> rat \<Rightarrow> int" where
  "calculateBackoff attempts' random =
     (let jitter = round64 (round64 (random * round64 (3 / 10)) * exponentialDelay attempts')
      in \<lfloor>round64 (exponentialDelay attempts' + jitter)\<rfloor>)"

text \<open>\<open>enqueueJob\<close> is the only way into the job set: a job is stored under its own id, once.\<close>

definition enqueueJob :: "jobs \<Rightarrow> nat \<Rightarrow> rat \<Rightarrow> string \<Rightarrow> string \<Rightarrow> nat \<Rightarrow> jobs" where
  "enqueueJob js now random bridgeId messageHash' attempts' =
     (if js bridgeId \<noteq> None then js
      else js(bridgeId \<mapsto> \<lparr> job_id = bridgeId, job_messageHash = messageHash', attempts = attempts',
                              nextRetry = int now + calculateBackoff attempts' random \<rparr>))"

definition timeout_reason :: string where
  "timeout_reason = ''Attestation timeout after '' @ show_nat MAX_ATTEMPTS @ '' attempts''"

text \<open>
  \<open>processJob\<close> on the job object the set holds, with the clock reading, the jitter draw and
  what the collaborators do during the attestation check. The last case is the \<^verbatim>\<open>catch\<close>
  branch: it counts the attempt and reschedules without looking at the maximum.
\<close>

definition processJob ::
  "'a ext_scheme \<Rightarrow> jobs \<times> store \<Rightarrow> AttestationJob \<Rightarrow> nat \<Rightarrow> rat \<Rightarrow> collaborator \<Rightarrow> jobs \<times> store" where
  "processJob e ws job now random c =
     (case ws of (js, st) \<Rightarrow>
        (case checkAttestation e st now (job_id job) c of
           (st', Inr attestation') \<Rightarrow>
             if truthy attestation' then (js(job_id job := None), st')
             else
               let job' = job\<lparr> attempts := attempts job + 1 \<rparr>
               in if attempts job' \<ge> MAX_ATTEMPTS
                  then (js(job_id job := None), markFailed st' now (job_id job) timeout_reason)
                  else (js(job_id job \<mapsto> job'\<lparr> nextRetry := int now + calculateBackoff (attempts job') random \<rparr>), st')
         | (st', Inl err) \<Rightarrow>
             (js(job_id job \<mapsto> job\<lparr> attempts := attempts job + 1,
                                     nextRetry := int now + calculateBackoff (attempts job + 1) random \<rparr>), st')))"

text \<open>
  A run of the poller on one transfer: the successive \<open>processJob\<close> steps on its job, each
  with its clock reading, jitter draw and collaborator behaviour. Once the job has left the
  set there is nothing to process.
\<close>

fun poll :: "'a ext_scheme \<Rightarrow> jobs \<times> store \<Rightarrow> string \<Rightarrow> (nat \<times> rat \<times> collaborator) list \<Rightarrow> jobs \<times> store" where
  "poll e ws bridgeId [] = ws"
| "poll e ws bridgeId ((now, random, c) # rest) =
     (case fst ws bridgeId of
        None \<Rightarrow> ws
      | Some job \<Rightarrow> poll e (processJob e ws job now random c) bridgeId rest)"

text \<open>The attestation check answers without throwing and without an attestation.\<close>

fun not_ready :: "error + string option \<Rightarrow> bool" where
  "not_ready (Inr attestation') = (\<not> truthy attestation')"
| "not_ready (Inl err) = False"

fun consistently_not_ready ::
  "'a ext_scheme \<Rightarrow> jobs \<times> store \<Rightarrow> string \<Rightarrow> (nat \<times> rat \<times> collaborator) list \<Rightarrow> bool" where
  "consistently_not_ready e ws bridgeId [] = True"
| "consistently_not_ready e ws bridgeId ((now, random, c) # rest) =
     (case fst ws bridgeId of
        None \<Rightarrow> True
      | Some job \<Rightarrow> not_ready (snd (checkAttestation e (snd ws) now (job_id job) c))
                   \<and> consistently_not_ready e (processJob e ws job now random c) bridgeId rest)"

definition burned_tx :: BridgeTransaction where
  "burned_tx = example_tx \<lparr> burnTxHash := Some ''0xb1'', status := Burned,
       attestationAttempts := 118, updatedAt := 1 \<rparr>"

definition burned_store :: store where
  "burned_store = Map.empty(''t1'' \<mapsto> burned_tx)"

definition example_job :: AttestationJob where
  "example_job = \<lparr> job_id = ''t1'', job_messageHash = [], attempts = 118, nextRetry = 0 \<rparr>"

definition example_jobs :: jobs where
  "example_jobs = Map.empty(''t1'' \<mapsto> example_job)"

definition pending_answer :: http_result where
  "pending_answer = Response 200 (Json (Some [pending_message]))"


section \<open>More string helpers\<close>

text \<open>\<^verbatim>\<open>s.replace(pat, rep)\<close> with a string pattern: only the first occurrence is replaced.\<close>

fun js_replace :: "string \<Rightarrow> string \<Rightarrow> string \<Rightarrow> string" where
  "js_replace [] pat rep = (if pat = [] then rep else [])"
| "js_replace (c # cs) pat rep =
     (if startsWith (c # cs) pat then rep @ drop (length pat) (c # cs)
      else c # js_replace cs pat rep)"

text \<open>\<^verbatim>\<open>s.padStart(n, c)\<close> with a one-character filler.\<close>

definition padStart :: "nat \<Rightarrow> char \<Rightarrow> string \<Rightarrow> string" where
  "padStart n c s = replicate (n - length s) c @ s"

text \<open>\<^verbatim>\<open>s.toLowerCase()\<close> on ASCII.\<close>

definition lower_char :: "char \<Rightarrow> char" where
  "lower_char c = (let k = (of_char c :: nat) in if 65 \<le> k \<and> k \<le> 90 then char_of (k + 32) else c)"

definition toLowerCase :: "string \<Rightarrow> string" where
  "toLowerCase s = map lower_char s"

text \<open>The value of a digit in a radix up to 16, and of a digit string; \<open>None\<close> where a character is no digit.\<close>

definition digit_value :: "char \<Rightarrow> nat option" where
  "digit_value c =
     (let k = (of_char c :: nat) in
      if 48 \<le> k \<and> k \<le> 57 then Some (k - 48)
      else if 97 \<le> k \<and> k \<le> 102 then Some (k - 87)
      else if 65 \<le> k \<and> k \<le> 70 then Some (k - 55)
      else None)"

fun parse_digits :: "nat \<Rightarrow> nat \<Rightarrow> string \<Rightarrow> nat option" where
  "parse_digits radix acc [] = Some acc"
| "parse_digits radix acc (c # cs) =
     (case digit_value c of
        None \<Rightarrow> None
      | Some d \<Rightarrow> if d < radix then parse_digits radix (acc * radix + d) cs else None)"

definition parse_radix :: "nat \<Rightarrow> string \<Rightarrow> nat option" where
  "parse_radix radix s = (if s = [] then None else parse_digits radix 0 s)"

text \<open>
  \<^verbatim>\<open>BigInt(s)\<close> on a string: surrounding white space is dropped, the empty string is zero, a
  radix prefix takes no sign, and anything else throws a \<^verbatim>\<open>SyntaxError\<close> (\<open>None\<close>).
\<close>

definition is_space :: "char \<Rightarrow> bool" where
  "is_space c = ((of_char c :: nat) \<in> {9, 10, 11, 12, 13, 32})"

definition trim :: "string \<Rightarrow> string" where
  "trim s = rev (dropWhile is_space (rev (dropWhile is_space s)))"

definition js_BigInt :: "string \<Rightarrow> int option" where
  "js_BigInt s =
     (let t = trim s in
      if t = [] then Some 0
      else if take 2 t = ''0x'' \<or> take 2 t = ''0X'' then map_option int (parse_radix 16 (drop 2 t))
      else if take 2 t = ''0o'' \<or> take 2 t = ''0O'' then map_option int (parse_radix 8 (drop 2 t))
      else if take 2 t = ''0b'' \<or> take 2 t = ''0B'' then map_option int (parse_radix 2 (drop 2 t))
      else if hd t = CHR ''-'' then map_option (\<lambda>n. - int n) (parse_radix 10 (tl t))
      else if hd t = CHR ''+'' then map_option int (parse_radix 10 (tl t))
      else map_option int (parse_radix 10 t))"

text \<open>
  \<^verbatim>\<open>cairo.uint256\<close> of starknet.js: the low and high 128-bit halves of a value in
  \<open>[0, 2^256)\<close>, and an error outside that range.
\<close>

definition cairo_uint256 :: "int \<Rightarrow> error + nat \<times> nat" where
  "cairo_uint256 v =
     (if v < 0 \<or> 2 ^ 256 \<le> v then Inl RangeError
      else Inr (nat v mod 2 ^ 128, nat v div 2 ^ 128))"


section \<open>Address translation (evm.ts, starknet.ts)\<close>

definition addressToBytes32 :: "string \<Rightarrow> string" where
  "addressToBytes32 address =
     (let cleanAddress = js_replace (toLowerCase address) ''0x'' []
      in ''0x'' @ padStart 64 CHR ''0'' cleanAddress)"

definition starknetAddressToBytes32 :: "string \<Rightarrow> string" where
  "starknetAddressToBytes32 address =
     (let cleanAddress = js_replace (toLowerCase address) ''0x'' []
      in ''0x'' @ padStart 64 CHR ''0'' cleanAddress)"

definition toUint256 :: "int \<Rightarrow> error + nat \<times> nat" where
  "toUint256 v = cairo_uint256 v"

definition evmAddressToU256 :: "string \<Rightarrow> error + string \<times> string" where
  "evmAddressToU256 address =
     (let cleanAddress = js_replace (toLowerCase address) ''0x'' []
      in case js_BigInt (''0x'' @ cleanAddress) of
           None \<Rightarrow> Inl SyntaxError
         | Some addressBigInt \<Rightarrow>
             (case cairo_uint256 addressBigInt of
                Inl err \<Rightarrow> Inl err
              | Inr (low, high) \<Rightarrow> Inr (show_nat low, show_nat high)))"

definition solanaAddressToU256 :: "string \<Rightarrow> error + string \<times> string" where
  "solanaAddressToU256 address =
     (let cleanHex = padStart 64 CHR ''0'' (js_replace address ''0x'' [])
      in case js_BigInt (''0x'' @ take 32 cleanHex) of
           None \<Rightarrow> Inl SyntaxError
         | Some high \<Rightarrow>
             (case js_BigInt (''0x'' @ drop 32 cleanHex) of
                None \<Rightarrow> Inl SyntaxError
              | Some low \<Rightarrow> Inr (show_nat (nat low), show_nat (nat high))))"


definition read_nat :: "string \<Rightarrow> nat option" where
  "read_nat s = parse_radix 10 s"

text \<open>A string of hex digits, of either case.\<close>

definition is_hex :: "string \<Rightarrow> bool" where
  "is_hex s = list_all (\<lambda>c. digit_value c \<noteq> None) s"


section \<open>Felt arrays and the Starknet mint call (starknet.ts)\<close>

function hexToFeltArray_loop :: "nat \<Rightarrow> string \<Rightarrow> string list \<Rightarrow> string list" where
  "hexToFeltArray_loop i cleanHex chunks =
     (if i < length cleanHex
      then hexToFeltArray_loop (i + 62) cleanHex (chunks @ [''0x'' @ take 62 (drop i cleanHex)])
      else chunks)"
  by pat_completeness auto
termination
  by (relation "measure (\<lambda>(i, cleanHex, chunks). length cleanHex - i)") auto

declare hexToFeltArray_loop.simps [simp del]

definition hexToFeltArray :: "string \<Rightarrow> string list" where
  "hexToFeltArray hex = hexToFeltArray_loop 0 (js_replace hex ''0x'' []) []"


section \<open>Chain registry (app-config.ts, config.ts)\<close>

datatype ChainType = evm | solana | starknet

record ChainConfig =
  chainId :: string
  domainId :: int
  name :: string
  type :: ChainType
  tokenMessenger :: string
  messageTransmitter :: string
  usdc :: string
  isEnabled :: bool
  isTestnet :: bool

type_synonym registry = "int \<rightharpoonup> ChainConfig"

definition STARKNET_DOMAIN_ID :: int where "STARKNET_DOMAIN_ID = 25"

definition getChainConfig :: "registry \<Rightarrow> int \<Rightarrow> ChainConfig option" where
  "getChainConfig reg d = reg d"

text \<open>A Starknet call (starknet.js); every calldata element is a string.\<close>

record Call =
  contractAddress :: string
  entrypoint :: string
  calldata :: "string list"

definition buildStarknetMintCall :: "registry \<Rightarrow> string \<Rightarrow> string \<Rightarrow> error + Call" where
  "buildStarknetMintCall reg message' attestation' =
     (case getChainConfig reg STARKNET_DOMAIN_ID of
        None \<Rightarrow> Inl UnknownChain
      | Some starknetConfig \<Rightarrow>
          let messageBytes' = hexToFeltArray message';
              attestationBytes = hexToFeltArray attestation'
          in Inr \<lparr> contractAddress = messageTransmitter starknetConfig,
                   entrypoint = ''handle_receive_finalized_message'',
                   calldata = show_nat (length messageBytes') # messageBytes'
                              @ show_nat (length attestationBytes) # attestationBytes \<rparr>)"

text \<open>
  Reading the calldata of a mint call back: a decimal count, that many felts, their payloads
  (each without its \<open>0x\<close>) joined; twice, and nothing left over.
\<close>

definition decode_felts :: "string list \<Rightarrow> (string \<times> string list) option" where
  "decode_felts cd =
     (case cd of
        [] \<Rightarrow> None
      | n # rest \<Rightarrow>
          (case read_nat n of
             None \<Rightarrow> None
           | Some k \<Rightarrow> if k \<le> length rest
                       then Some (concat (map (drop 2) (take k rest)), drop k rest)
                       else None))"

definition decode_mint_calldata :: "string list \<Rightarrow> (string \<times> string) option" where
  "decode_mint_calldata cd =
     (case decode_felts cd of
        None \<Rightarrow> None
      | Some (m, rest) \<Rightarrow>
          (case decode_felts rest of
             Some (a, []) \<Rightarrow> Some (m, a)
           | _ \<Rightarrow> None))"


definition starknet_config :: ChainConfig where
  "starknet_config = \<lparr> chainId = ''starknet-mainnet'', domainId = 25, name = ''Starknet'', type = starknet,
       tokenMessenger = ''0x06a1d71e3815f63282f70e35ff3dc2e8cbb6c7e90880bb1e12a1c30ecb92b3d5'',
       messageTransmitter = ''0x05ab68926f5c46e33a4b39f6fb1c99a6e8d11ec0a6a7f3c8c3b1e3a5e0d3b2c1'',
       usdc = ''0x053c91253bc9682c04929ca02ed00b3e423f6710d2ee7e0d5ebb06f3ecf368a8'',
       isEnabled = True, isTestnet = False \<rparr>"

definition ethereum_config :: ChainConfig where
  "ethereum_config = \<lparr> chainId = ''1'', domainId = 0, name = ''Ethereum'', type = evm,
       tokenMessenger = ''0xbd3fa81b58ba92a82136038b25adec7066af3155'',
       messageTransmitter = ''0x0a992d191deec32afe36203ad87d7d289a738f81'',
       usdc = ''0xa0b86991c6218b36c1d19d4a2e9eb0ce3606eb48'',
       isEnabled = True, isTestnet = False \<rparr>"

definition solana_config :: ChainConfig where
  "solana_config = \<lparr> chainId = ''solana-mainnet'', domainId = 5, name = ''Solana'', type = solana,
       tokenMessenger = ''CCTPiPYPc6AsJuwueEnWgSgucamXDZwBd53dQ11YiKX3'',
       messageTransmitter = ''CCTPmbSD7gX1bxKPAmg77w8oFzNFpaQiQUWD43TKaecd'',
       usdc = ''EPjFWdd5AufqSSqeM2qN1xzybapC8G4wEGGkZwyTDt1v'',
       isEnabled = True, isTestnet = False \<rparr>"

definition example_registry :: registry where
  "example_registry = Map.empty(0 \<mapsto> ethereum_config, 5 \<mapsto> solana_config, 25 \<mapsto> starknet_config)"





section \<open>Payload builders (evm.ts, starknet.ts, solana.ts) and initiation (service.ts)\<close>

text \<open>\<^verbatim>\<open>n.toString()\<close> for an integer.\<close>

definition show_int :: "int \<Rightarrow> string" where
  "show_int i = (if i < 0 then CHR ''-'' # show_nat (nat (- i)) else show_nat (nat i))"

record InitiateBridgeParams =
  p_userAddress :: string
  sourceDomain :: int
  destDomain :: int
  p_amount :: string
  p_recipientAddress :: string
  isFastTransfer :: "bool option"

record DepositForBurnParams =
  b_amount :: int
  destinationDomain :: int
  mintRecipient :: string
  burnToken :: string
  destinationCaller :: "string option"
  maxFee :: "int option"
  minFinalityThreshold :: "int option"
  b_userAddress :: string

text \<open>
  The calls handed to viem's \<^verbatim>\<open>encodeFunctionData\<close>, by function and arguments:
  \<^verbatim>\<open>depositForBurn(amount, destinationDomain, mintRecipient, burnToken, destinationCaller, maxFee, minFinalityThreshold)\<close>
  and \<^verbatim>\<open>approve(spender, amount)\<close>.
\<close>

datatype abi_call =
    DepositForBurn int int string string string int int
  | Approve string int

record evm_tx =
  to :: string
  data :: string
  tx_chainId :: "int option"

record solana_burn_request =
  programs :: ChainConfig
  sb_amount :: int
  sb_destinationDomain :: int
  sb_mintRecipient :: string
  sb_senderTokenAccount :: string
  sb_sender :: string

record solana_instruction =
  programId :: string
  keys :: "(string \<times> bool \<times> bool) list"
  ix_data :: string

datatype BurnTxData =
    EvmBurn evm_tx evm_tx
  | StarknetBurn "Call list"
  | SolanaBurn "solana_instruction list"

text \<open>
  The library encoders of the builders, next to \<open>keccak256\<close>: viem's \<^verbatim>\<open>encodeFunctionData\<close> and
  \<^verbatim>\<open>pad\<close>, JavaScript's \<^verbatim>\<open>parseInt\<close> (\<open>None\<close> is \<^verbatim>\<open>NaN\<close>), and the part of the Solana builder
  made of @solana/web3.js and \<^verbatim>\<open>Buffer\<close> calls (public keys, program derived addresses, the
  instruction bytes and their base58 and base64 renderings). \<open>None\<close> is a thrown exception.
\<close>

record encoders = ext +
  encodeFunctionData :: "abi_call \<Rightarrow> string option"
  pad32 :: "string \<Rightarrow> string option"
  parseInt :: "string \<Rightarrow> int option"
  solanaBurnInstruction :: "solana_burn_request \<Rightarrow> solana_instruction option"

definition isValidBridgePair :: "int \<Rightarrow> int \<Rightarrow> bool" where
  "isValidBridgePair sourceDomain' destDomain' =
     (sourceDomain' = STARKNET_DOMAIN_ID \<or> destDomain' = STARKNET_DOMAIN_ID)"

definition FINALITY_THRESHOLD_FAST :: int where "FINALITY_THRESHOLD_FAST = 1000"

definition buildDepositForBurnTx ::
  "'a encoders_scheme \<Rightarrow> registry \<Rightarrow> int \<Rightarrow> 'b DepositForBurnParams_scheme \<Rightarrow> error + evm_tx" where
  "buildDepositForBurnTx e reg sourceDomainId' params =
     (case getChainConfig reg sourceDomainId' of
        None \<Rightarrow> Inl UnknownChain
      | Some sourceConfig \<Rightarrow>
          if type sourceConfig \<noteq> evm then Inl UnsupportedRoute
          else (case getChainConfig reg (destinationDomain params) of
                  None \<Rightarrow> Inl UnknownChain
                | Some destConfig \<Rightarrow>
                    (case (if type destConfig = starknet
                           then Some (starknetAddressToBytes32 (mintRecipient params))
                           else if type destConfig = solana
                           then pad32 e (mintRecipient params)
                           else Some (addressToBytes32 (mintRecipient params))) of
                       None \<Rightarrow> Inl EncodingError
                     | Some mintRecipientBytes32 \<Rightarrow>
                         let destinationCaller' =
                               (case destinationCaller params of
                                  None \<Rightarrow> ''0x'' @ replicate 64 CHR ''0'' | Some dc \<Rightarrow> dc);
                             maxFee' = (case maxFee params of None \<Rightarrow> 0 | Some f \<Rightarrow> f);
                             minFinalityThreshold' =
                               (case minFinalityThreshold params of
                                  None \<Rightarrow> FINALITY_THRESHOLD_FAST | Some t \<Rightarrow> t)
                         in (case encodeFunctionData e
                                    (DepositForBurn (b_amount params) (destinationDomain params)
                                       mintRecipientBytes32 (burnToken params) destinationCaller'
                                       maxFee' minFinalityThreshold') of
                               None \<Rightarrow> Inl EncodingError
                             | Some data' \<Rightarrow>
                                 Inr \<lparr> to = tokenMessenger sourceConfig, data = data',
                                       tx_chainId = parseInt e (chainId sourceConfig) \<rparr>))))"

definition buildStarknetApproveCall :: "registry \<Rightarrow> string \<Rightarrow> int \<Rightarrow> error + Call" where
  "buildStarknetApproveCall reg spender amount' =
     (case getChainConfig reg STARKNET_DOMAIN_ID of
        None \<Rightarrow> Inl UnknownChain
      | Some starknetConfig \<Rightarrow>
          (case toUint256 amount' of
             Inl err \<Rightarrow> Inl err
           | Inr (low, high) \<Rightarrow>
               Inr \<lparr> contractAddress = usdc starknetConfig, entrypoint = ''approve'',
                     calldata = [spender, show_nat low, show_nat high] \<rparr>))"

definition buildStarknetBurnCall :: "registry \<Rightarrow> 'b DepositForBurnParams_scheme \<Rightarrow> error + Call" where
  "buildStarknetBurnCall reg params =
     (case getChainConfig reg STARKNET_DOMAIN_ID of
        None \<Rightarrow> Inl UnknownChain
      | Some starknetConfig \<Rightarrow>
          (case getChainConfig reg (destinationDomain params) of
             None \<Rightarrow> Inl UnknownChain
           | Some destConfig \<Rightarrow>
               (case toUint256 (b_amount params) of
                  Inl err \<Rightarrow> Inl err
                | Inr (amountLow, amountHigh) \<Rightarrow>
                    (case (if type destConfig = evm then evmAddressToU256 (mintRecipient params)
                           else if type destConfig = solana then solanaAddressToU256 (mintRecipient params)
                           else Inl UnsupportedRoute) of
                       Inl err \<Rightarrow> Inl err
                     | Inr (recipientLow, recipientHigh) \<Rightarrow>
                         (case toUint256 (case maxFee params of None \<Rightarrow> 0 | Some f \<Rightarrow> f) of
                            Inl err \<Rightarrow> Inl err
                          | Inr (feeLow, feeHigh) \<Rightarrow>
                              let minFinalityThreshold' =
                                    (case minFinalityThreshold params of None \<Rightarrow> 1000 | Some t \<Rightarrow> t)
                              in Inr \<lparr> contractAddress = tokenMessenger starknetConfig,
                                       entrypoint = ''deposit_for_burn'',
                                       calldata =
                                         [show_nat amountLow, show_nat amountHigh,
                                          show_int (destinationDomain params),
                                          recipientLow, recipientHigh,
                                          usdc starknetConfig,
                                          ''0'', ''0'',
                                          show_nat feeLow, show_nat feeHigh,
                                          show_int minFinalityThreshold'] \<rparr>)))))"

definition buildStarknetBurnMulticall :: "registry \<Rightarrow> 'b DepositForBurnParams_scheme \<Rightarrow> error + Call list" where
  "buildStarknetBurnMulticall reg params =
     (case getChainConfig reg STARKNET_DOMAIN_ID of
        None \<Rightarrow> Inl UnknownChain
      | Some starknetConfig \<Rightarrow>
          (case buildStarknetApproveCall reg (tokenMessenger starknetConfig) (b_amount params) of
             Inl err \<Rightarrow> Inl err
           | Inr approveCall \<Rightarrow>
               (case buildStarknetBurnCall reg params of
                  Inl err \<Rightarrow> Inl err
                | Inr burnCall \<Rightarrow> Inr [approveCall, burnCall])))"

definition SOLANA_DOMAIN_ID :: int where "SOLANA_DOMAIN_ID = 5"

definition buildSolanaBurnInstruction ::
  "'a encoders_scheme \<Rightarrow> registry \<Rightarrow> 'b DepositForBurnParams_scheme \<Rightarrow> error + solana_instruction" where
  "buildSolanaBurnInstruction e reg params =
     (case getChainConfig reg SOLANA_DOMAIN_ID of
        None \<Rightarrow> Inl UnknownChain
      | Some solanaConfig \<Rightarrow>
          (case getChainConfig reg (destinationDomain params) of
             None \<Rightarrow> Inl UnknownChain
           | Some destConfig \<Rightarrow>
               if type destConfig = starknet \<or> type destConfig = evm then
                 (case solanaBurnInstruction e
                         \<lparr> programs = solanaConfig, sb_amount = b_amount params,
                           sb_destinationDomain = destinationDomain params,
                           sb_mintRecipient =
                             padStart 64 CHR ''0'' (js_replace (mintRecipient params) ''0x'' []),
                           sb_senderTokenAccount = b_userAddress params,
                           sb_sender = b_userAddress params \<rparr> of
                    None \<Rightarrow> Inl EncodingError
                  | Some instruction \<Rightarrow> Inr instruction)
               else Inl UnsupportedRoute))"

definition MAX_UINT256 :: int where "MAX_UINT256 = 2 ^ 256 - 1"

definition buildBurnTxData ::
  "'a encoders_scheme \<Rightarrow> registry \<Rightarrow> ChainConfig \<Rightarrow> 'b DepositForBurnParams_scheme \<Rightarrow> error + BurnTxData" where
  "buildBurnTxData e reg sourceConfig params =
     (case type sourceConfig of
        evm \<Rightarrow>
          (case buildDepositForBurnTx e reg (domainId sourceConfig) params of
             Inl err \<Rightarrow> Inl err
           | Inr burnTx \<Rightarrow>
               (case encodeFunctionData e (Approve (tokenMessenger sourceConfig) MAX_UINT256) of
                  None \<Rightarrow> Inl EncodingError
                | Some approveData \<Rightarrow>
                    Inr (EvmBurn burnTx \<lparr> to = usdc sourceConfig, data = approveData,
                                          tx_chainId = tx_chainId burnTx \<rparr>)))
      | starknet \<Rightarrow>
          (case buildStarknetBurnMulticall reg params of
             Inl err \<Rightarrow> Inl err
           | Inr calls \<Rightarrow> Inr (StarknetBurn calls))
      | solana \<Rightarrow>
          (case buildSolanaBurnInstruction e reg params of
             Inl err \<Rightarrow> Inl err
           | Inr instruction \<Rightarrow> Inr (SolanaBurn [instruction])))"

text \<open>
  The parameters \<open>initiateBridge\<close> hands to the builder, for the parsed amount. A transfer is
  fast unless \<^verbatim>\<open>isFastTransfer\<close> is \<^verbatim>\<open>false\<close>.
\<close>

definition burnParams :: "InitiateBridgeParams \<Rightarrow> ChainConfig \<Rightarrow> int \<Rightarrow> DepositForBurnParams" where
  "burnParams params sourceConfig amount' =
     (let isFast = (isFastTransfer params \<noteq> Some False);
          minFinalityThreshold' = (if isFast then 1000 else 2000);
          maxFee' = (if isFast then 10000 else 0)
      in \<lparr> b_amount = amount', destinationDomain = destDomain params,
           mintRecipient = p_recipientAddress params, burnToken = usdc sourceConfig,
           destinationCaller = None, maxFee = Some maxFee',
           minFinalityThreshold = Some minFinalityThreshold',
           b_userAddress = p_userAddress params \<rparr>)"

text \<open>
  \<open>initiateBridge\<close>. \<open>inserted\<close> is what the \<^verbatim>\<open>INSERT ... RETURNING id\<close> of the new row gives:
  \<open>Some\<close> the id the store generated, or \<open>None\<close> when the statement throws. That is for the
  store to decide, so it is an input here: the schema (\<^verbatim>\<open>0002_bridge_tables.sql\<close>) rejects a
  sender or recipient that does not fit \<^verbatim>\<open>VARCHAR(66)\<close> and an amount that is not a
  \<^verbatim>\<open>NUMERIC(78, 0)\<close>, and the connection can fail. The row is inserted before the amount is
  parsed and the payload built, so it stays when they throw.
\<close>

definition new_row :: "InitiateBridgeParams \<Rightarrow> nat \<Rightarrow> BridgeTransaction" where
  "new_row params now =
     \<lparr> userAddress = p_userAddress params, sourceDomainId = sourceDomain params,
       destDomainId = destDomain params, amount = p_amount params,
       recipientAddress = p_recipientAddress params, burnTxHash = None, messageHash = None,
       messageBytes = None, nonce = None, attestation = None, attestationStatus = Pending,
       attestationAttempts = 0, lastAttestationCheck = None, mintTxHash = None,
       status = Initiated, errorMessage = None, createdAt = now, updatedAt = now \<rparr>"

definition initiateBridge ::
  "'a encoders_scheme \<Rightarrow> registry \<Rightarrow> store \<Rightarrow> string option \<Rightarrow> nat \<Rightarrow> InitiateBridgeParams
     \<Rightarrow> store \<times> (error + string \<times> BurnTxData)" where
  "initiateBridge e reg st inserted now params =
     (if \<not> isValidBridgePair (sourceDomain params) (destDomain params) then (st, Inl InvalidPair)
      else (case (getChainConfig reg (sourceDomain params), getChainConfig reg (destDomain params)) of
              (Some sourceConfig, Some destConfig) \<Rightarrow>
                (case inserted of
                   None \<Rightarrow> (st, Inl InsertRejected)
                 | Some bridgeId \<Rightarrow>
                     let st' = st(bridgeId \<mapsto> new_row params now)
                     in (case js_BigInt (p_amount params) of
                           None \<Rightarrow> (st', Inl SyntaxError)
                         | Some amount' \<Rightarrow>
                             (case buildBurnTxData e reg sourceConfig
                                     (burnParams params sourceConfig amount') of
                                Inl err \<Rightarrow> (st', Inl err)
                              | Inr txData \<Rightarrow> (st', Inr (bridgeId, txData)))))
            | _ \<Rightarrow> (st, Inl UnknownChain)))"



definition example_encoders :: encoders where
  "example_encoders = \<lparr> keccak256 = Some, encodeFunctionData = (\<lambda>c. Some ''0xencoded''),
       pad32 = Some, parseInt = (\<lambda>s. map_option int (parse_radix 10 s)),
       solanaBurnInstruction = (\<lambda>r. Some \<lparr> programId = tokenMessenger (programs r), keys = [],
                                            ix_data = [] \<rparr>) \<rparr>"

definition fast_request :: InitiateBridgeParams where
  "fast_request = \<lparr> p_userAddress = ''0x01'', sourceDomain = 25, destDomain = 0,
       p_amount = ''1000000'', p_recipientAddress = ''0x2B4069517957735bE00ceE0fadAE88a26365528f'',
       isFastTransfer = Some True \<rparr>"




definition fast_payload :: BurnTxData where
  "fast_payload = StarknetBurn
     [\<lparr> contractAddress = usdc starknet_config, entrypoint = ''approve'',
         calldata = [tokenMessenger starknet_config, ''1000000'', ''0''] \<rparr>,
      \<lparr> contractAddress = tokenMessenger starknet_config, entrypoint = ''deposit_for_burn'',
         calldata = [''1000000'', ''0'', ''0'',
                     ''161290657072874832887452128092155630223'', ''725641553'',
                     usdc starknet_config, ''0'', ''0'', ''10000'', ''0'', ''1000''] \<rparr>]"


section \<open>Message lookup: the pending sentinel\<close>

lemma getMessageFromTx_first:
  "200 \<le> code \<Longrightarrow> code \<le> 299 \<Longrightarrow>
   getMessageFromTx (Response code (Json (Some (msg # rest)))) =
     Inr (Some \<lparr> message = v2_message msg, eventNonce = v2_eventNonce msg,
                 resp_status = v2_status msg,
                 resp_attestation = (if hasValidAttestation msg then v2_attestation msg else None) \<rparr>)"
  by (simp add: getMessageFromTx_def)

text \<open>
  C9. For the message the attestation service returns (the first of a 2xx answer), the lookup
  reports an attestation exactly when the field is present, is not the sentinel \<open>PENDING\<close> and
  starts with \<open>0x\<close>, and then reports the field itself; the sentinel and every value without
  the prefix come back as no attestation.
\<close>

theorem C9_pending_sentinel_absent:
  assumes "200 \<le> code" and "code \<le> 299"
  shows "\<exists>m. getMessageFromTx (Response code (Json (Some (msg # rest)))) = Inr (Some m) \<and>
           (v2_attestation msg = Some ''PENDING'' \<longrightarrow> resp_attestation m = None) \<and>
           (\<forall>a. v2_attestation msg = Some a \<and> \<not> startsWith a ''0x'' \<longrightarrow> resp_attestation m = None) \<and>
           (\<forall>a. resp_attestation m = Some a \<longleftrightarrow>
                  v2_attestation msg = Some a \<and> a \<noteq> ''PENDING'' \<and> startsWith a ''0x'')"
  using assms
  by (cases "v2_attestation msg")
     (auto simp: getMessageFromTx_first hasValidAttestation_def startsWith_def)

theorem C9_pending_sentinel_absent_witness:
  "(200::nat) \<le> 200 \<and> (200::nat) \<le> 299 \<and>
   (\<exists>m. getMessageFromTx (Response 200 (Json (Some
           [\<lparr> v2_message = ''0xab'', v2_attestation = Some ''PENDING'',
              v2_eventNonce = ''7'', v2_status = ''pending_confirmations'' \<rparr>]))) = Inr (Some m) \<and>
        resp_attestation m = None)"
  using C9_pending_sentinel_absent [of 200
          "\<lparr> v2_message = ''0xab'', v2_attestation = Some ''PENDING'',
             v2_eventNonce = ''7'', v2_status = ''pending_confirmations'' \<rparr>" "[]"]
  by auto

section \<open>Status transitions\<close>






lemmas service_defs =
  recordBurnTx_def checkAttestation_def recordMintTx_def markFailed_def getTransaction_def
  update_row_def getMessageFromTx_def hasValidAttestation_def computeMessageHash_def
  startsWith_def orNull_def

lemmas example_defs =
  example_store_def example_tx_def example_ext_def attested_answer_def attested_message_def
  pending_message_def complete_tx_def complete_store_def





section \<open>Attestation check on a finished transfer\<close>

text \<open>
  C3. On a transfer whose \<open>attestationStatus\<close> is \<open>complete\<close> or whose \<open>status\<close> is \<open>completed\<close>,
  \<open>checkAttestation\<close> returns the stored attestation and leaves the store as it was, whatever
  the attestation service would answer; a second call does the same.
\<close>

theorem C3_checkAttestation_noop:
  assumes "st bridgeId = Some tx"
    and "attestationStatus tx = Complete \<or> status tx = Completed"
  shows "checkAttestation e st now bridgeId (Http r) = (st, Inr (attestation tx)) \<and>
         checkAttestation e (fst (checkAttestation e st now bridgeId (Http r))) now' bridgeId (Http r')
           = (st, Inr (attestation tx))"
  using assms by (auto simp: checkAttestation_def getTransaction_def)


theorem C3_checkAttestation_noop_witness:
  "complete_store ''t1'' = Some complete_tx \<and>
   (attestationStatus complete_tx = Complete \<or> status complete_tx = Completed) \<and>
   checkAttestation example_ext complete_store 5 ''t1'' (Http NetworkError)
     = (complete_store, Inr (Some ''0xcd'')) \<and>
   checkAttestation example_ext
       (fst (checkAttestation example_ext complete_store 5 ''t1'' (Http NetworkError)))
       6 ''t1'' (Http attested_answer)
     = (complete_store, Inr (Some ''0xcd''))"
proof -
  have a: "complete_store ''t1'' = Some complete_tx" by (simp add: complete_store_def)
  have b: "attestationStatus complete_tx = Complete \<or> status complete_tx = Completed"
    by (simp add: complete_tx_def)
  have c: "attestation complete_tx = Some ''0xcd''" by (simp add: complete_tx_def)
  note t = C3_checkAttestation_noop [of complete_store "''t1''" complete_tx example_ext 5 NetworkError
         6 attested_answer, OF a b, unfolded c]
  from t a b show ?thesis by blast
qed


section \<open>Recording a burn twice\<close>

text \<open>
  C5. Once a burn has been recorded for a transfer with hash \<open>h\<close> through the burn route, a
  second request for the same transfer and hash is rejected as already burned, whatever else
  the request carries and whatever the attestation service answers, and the store stays exactly
  as the first request left it: burn hash, message bytes, message hash, nonce, status and
  every other column.
\<close>

theorem C5_second_burn_rejected:
  assumes "POST_burn e st now bridgeId (Some h) mb nn r = (st1, Inr ())"
  shows "POST_burn e st1 now' bridgeId (Some h) mb' nn' r' = (st1, Inl AlreadyBurned) \<and>
         (\<exists>tx. st1 bridgeId = Some tx \<and> burnTxHash tx = Some h \<and> status tx = Burned)"
  using assms
  by (auto simp: POST_burn_def recordBurnTx_def getTransaction_def update_row_def Let_def
           split: option.splits if_splits prod.splits sum.splits)

theorem C5_second_burn_rejected_witness:
  "POST_burn example_ext example_store 1 ''t1'' (Some ''0xb1'') (Some ''0xab'') None NetworkError
     = (example_store(''t1'' \<mapsto> example_tx \<lparr> burnTxHash := Some ''0xb1'',
            messageBytes := Some ''0xab'', messageHash := Some ''0xab'', nonce := None,
            status := Burned, updatedAt := 1 \<rparr>), Inr ()) \<and>
   POST_burn example_ext
       (example_store(''t1'' \<mapsto> example_tx \<lparr> burnTxHash := Some ''0xb1'',
            messageBytes := Some ''0xab'', messageHash := Some ''0xab'', nonce := None,
            status := Burned, updatedAt := 1 \<rparr>))
       9 ''t1'' (Some ''0xb1'') None None attested_answer
     = (example_store(''t1'' \<mapsto> example_tx \<lparr> burnTxHash := Some ''0xb1'',
            messageBytes := Some ''0xab'', messageHash := Some ''0xab'', nonce := None,
            status := Burned, updatedAt := 1 \<rparr>), Inl AlreadyBurned)"
proof -
  have first: "POST_burn example_ext example_store 1 ''t1'' (Some ''0xb1'') (Some ''0xab'') None NetworkError
     = (example_store(''t1'' \<mapsto> example_tx \<lparr> burnTxHash := Some ''0xb1'',
            messageBytes := Some ''0xab'', messageHash := Some ''0xab'', nonce := None,
            status := Burned, updatedAt := 1 \<rparr>), Inr ())"
    by (simp add: POST_burn_def service_defs example_store_def example_ext_def example_tx_def)
  from C5_second_burn_rejected [OF first, of 9 None None attested_answer] first
  show ?thesis by simp
qed


section \<open>Double-precision rounding\<close>

lemma round_even_le: "q \<le> of_int c \<Longrightarrow> round_even q \<le> c"
proof -
  assume a: "q \<le> of_int c"
  then have f: "\<lfloor>q\<rfloor> \<le> c" by (simp add: floor_le_iff)
  show ?thesis
  proof (cases "\<lfloor>q\<rfloor> = c")
    case True
    with a have "q = of_int c" by (metis of_int_floor_le order_antisym)
    then show ?thesis by (simp add: round_even_def)
  next
    case False
    with f have "\<lfloor>q\<rfloor> + 1 \<le> c" by simp
    then show ?thesis unfolding round_even_def Let_def by auto
  qed
qed

lemma round_even_ge: "of_int c \<le> q \<Longrightarrow> c \<le> round_even q"
proof -
  assume "of_int c \<le> q"
  then have "c \<le> \<lfloor>q\<rfloor>" by (simp add: le_floor_iff)
  then show ?thesis unfolding round_even_def Let_def by auto
qed

lemma round_even_int: "round_even (of_int c) = c"
  by (simp add: round_even_def)

lemma round_even_mono: "q \<le> q' \<Longrightarrow> round_even q \<le> round_even q'"
proof -
  assume a: "q \<le> q'"
  then have f: "\<lfloor>q\<rfloor> \<le> \<lfloor>q'\<rfloor>" by (rule floor_mono)
  show ?thesis
  proof (cases "\<lfloor>q\<rfloor> = \<lfloor>q'\<rfloor>")
    case True
    with a show ?thesis unfolding round_even_def Let_def by auto
  next
    case False
    with f have "\<lfloor>q\<rfloor> + 1 \<le> \<lfloor>q'\<rfloor>" by simp
    then have "q \<le> of_int \<lfloor>q'\<rfloor>"
      by (metis add.commute floor_less_iff less_eq_real_def not_less of_int_le_iff floor_le_iff
            le_floor_iff of_int_floor_le order_trans linorder_le_cases zle_add1_eq_le less_le_not_le)
    then have "round_even q \<le> \<lfloor>q'\<rfloor>" by (rule round_even_le)
    moreover have "\<lfloor>q'\<rfloor> \<le> round_even q'" by (rule round_even_ge) simp
    ultimately show ?thesis by simp
  qed
qed

lemma round64_big_ge: "2 ^ 52 \<le> x \<Longrightarrow> 2 ^ 52 \<le> round64_big x"
proof (induction x rule: round64_big.induct)
  case (1 x)
  show ?case
  proof (cases "x < 2 ^ 53")
    case True
    have "(2 ^ 52 :: int) \<le> round_even x" by (rule round_even_ge) (use 1(2) in simp)
    then have "(of_int (2 ^ 52) :: rat) \<le> of_int (round_even x)" by (simp only: of_int_le_iff)
    with True show ?thesis by (simp add: round64_big.simps [of x])
  next
    case False
    then have "2 ^ 52 \<le> x / 2" by simp
    with 1(1) False have "2 ^ 52 \<le> round64_big (x / 2)" by simp
    with False show ?thesis by (simp add: round64_big.simps [of x])
  qed
qed

lemma round64_big_small: "x < 2 ^ 53 \<Longrightarrow> round64_big x = of_int (round_even x)"
  by (simp add: round64_big.simps [of x])

lemma round64_big_mono: "x \<le> y \<Longrightarrow> round64_big x \<le> round64_big y"
proof (induction y arbitrary: x rule: round64_big.induct)
  case (1 y)
  show ?case
  proof (cases "y < 2 ^ 53")
    case True
    with 1(2) have x: "x < 2 ^ 53" by simp
    have "round_even x \<le> round_even y" using 1(2) by (rule round_even_mono)
    then have "(of_int (round_even x) :: rat) \<le> of_int (round_even y)" by (simp only: of_int_le_iff)
    with True x show ?thesis by (simp add: round64_big_small)
  next
    case False
    then have y2: "2 ^ 52 \<le> y / 2" by simp
    have ry: "round64_big y = 2 * round64_big (y / 2)"
      using False by (simp add: round64_big.simps [of y])
    show ?thesis
    proof (cases "x < 2 ^ 53")
      case True
      have "x \<le> of_int (2 ^ 53)" using True by simp
      then have "round_even x \<le> 2 ^ 53" by (rule round_even_le)
      then have "(of_int (round_even x) :: rat) \<le> of_int (2 ^ 53)" by (simp only: of_int_le_iff)
      then have a: "round64_big x \<le> 2 ^ 53" using True by (simp add: round64_big_small)
      have "2 ^ 52 \<le> round64_big (y / 2)" using y2 by (rule round64_big_ge)
      with ry have "2 ^ 53 \<le> round64_big y" by simp
      with a show ?thesis by linarith
    next
      case xF: False
      have rx: "round64_big x = 2 * round64_big (x / 2)"
        using xF by (simp add: round64_big.simps [of x])
      have "x / 2 \<le> y / 2" using 1(2) by simp
      with 1(1) False have "round64_big (x / 2) \<le> round64_big (y / 2)" by simp
      with rx ry show ?thesis by simp
    qed
  qed
qed

lemma round64_up_big: "2 ^ 52 \<le> x \<Longrightarrow> round64_up k x = round64_big x"
  by (simp add: round64_up.simps [of k x])

lemma round64_up_0: "x < 2 ^ 52 \<Longrightarrow> round64_up 0 x = of_int (round_even x)"
  by (simp add: round64_up.simps [of 0 x])

lemma round64_up_Suc: "x < 2 ^ 52 \<Longrightarrow> round64_up (Suc k) x = round64_up k (2 * x) / 2"
  by (simp add: round64_up.simps [of "Suc k" x])

lemma round64_up_le_int:
  "x < 2 ^ 52 \<Longrightarrow> x \<le> of_int c \<Longrightarrow> round64_up k x \<le> of_int c"
proof (induction k arbitrary: x c)
  case 0
  have "round_even x \<le> c" using 0(2) by (rule round_even_le)
  then have "(of_int (round_even x) :: rat) \<le> of_int c" by (simp only: of_int_le_iff)
  with 0(1) show ?case by (simp add: round64_up_0)
next
  case (Suc k)
  have c2: "2 * x \<le> of_int (2 * c)" using Suc(3) by simp
  have "round64_up k (2 * x) \<le> of_int (2 * c)"
  proof (cases "2 * x < 2 ^ 52")
    case True
    then show ?thesis using c2 by (rule Suc.IH)
  next
    case False
    then have b: "2 ^ 52 \<le> 2 * x" by simp
    have s: "2 * x < 2 ^ 53" using Suc(2) by simp
    have "round_even (2 * x) \<le> 2 * c" using c2 by (rule round_even_le)
    then have "(of_int (round_even (2 * x)) :: rat) \<le> of_int (2 * c)" by (simp only: of_int_le_iff)
    then show ?thesis using b s by (simp add: round64_up_big round64_big_small)
  qed
  then show ?case using Suc(2) by (simp add: round64_up_Suc)
qed

lemma round64_up_mono: "x \<le> y \<Longrightarrow> round64_up k x \<le> round64_up k y"
proof (induction k arbitrary: x y)
  case 0
  show ?case
  proof (cases "2 ^ 52 \<le> x")
    case True
    with 0 have "2 ^ 52 \<le> y" by simp
    with True 0 show ?thesis by (simp add: round64_up_big round64_big_mono)
  next
    case False
    then have x: "x < 2 ^ 52" by simp
    show ?thesis
    proof (cases "2 ^ 52 \<le> y")
      case True
      have "x \<le> of_int (2 ^ 52)" using x by simp
      with x have "round64_up 0 x \<le> of_int (2 ^ 52)" by (rule round64_up_le_int)
      moreover have "2 ^ 52 \<le> round64_big y" using True by (rule round64_big_ge)
      ultimately show ?thesis using True by (simp add: round64_up_big)
    next
      case yF: False
      have "round_even x \<le> round_even y" using 0 by (rule round_even_mono)
      then have "(of_int (round_even x) :: rat) \<le> of_int (round_even y)" by (simp only: of_int_le_iff)
      then show ?thesis using x yF by (simp add: round64_up_0)
    qed
  qed
next
  case (Suc k)
  show ?case
  proof (cases "2 ^ 52 \<le> x")
    case True
    with Suc(2) have "2 ^ 52 \<le> y" by simp
    with True Suc(2) show ?thesis by (simp add: round64_up_big round64_big_mono)
  next
    case False
    then have x: "x < 2 ^ 52" by simp
    show ?thesis
    proof (cases "2 ^ 52 \<le> y")
      case True
      have "x \<le> of_int (2 ^ 52)" using x by simp
      with x have "round64_up (Suc k) x \<le> of_int (2 ^ 52)" by (rule round64_up_le_int)
      moreover have "2 ^ 52 \<le> round64_big y" using True by (rule round64_big_ge)
      ultimately show ?thesis using True by (simp add: round64_up_big)
    next
      case yF: False
      have "2 * x \<le> 2 * y" using Suc(2) by simp
      then have "round64_up k (2 * x) \<le> round64_up k (2 * y)" by (rule Suc.IH)
      then show ?thesis using x yF by (simp add: round64_up_Suc)
    qed
  qed
qed

lemma round64_mono: "x \<le> y \<Longrightarrow> round64 x \<le> round64 y"
  unfolding round64_def by (rule round64_up_mono)

lemma round64_up_zero: "round64_up k 0 = 0"
proof (induction k)
  case 0
  show ?case by (simp add: round64_up_0 round_even_def)
next
  case (Suc k)
  then show ?case by (simp add: round64_up_Suc)
qed

lemma round64_zero: "round64 0 = 0"
  unfolding round64_def by (rule round64_up_zero)

lemma round64_nonneg: "0 \<le> x \<Longrightarrow> 0 \<le> round64 x"
  using round64_mono [of 0 x] by (simp add: round64_zero)

lemma round64_up_eval:
  "2 ^ 52 \<le> x * 2 ^ j \<Longrightarrow> x * 2 ^ j < 2 ^ 53 \<Longrightarrow> j \<le> k \<Longrightarrow>
   round64_up k x = of_int (round_even (x * 2 ^ j)) / 2 ^ j"
proof (induction j arbitrary: k x)
  case 0
  then show ?case by (simp add: round64_up_big round64_big_small)
next
  case (Suc j)
  from Suc(4) obtain k' where k: "k = Suc k'" and jk: "j \<le> k'" by (cases k) auto
  have h: "x * 2 ^ j < 2 ^ 52" using Suc(3) by simp
  have x: "x < 2 ^ 52"
  proof (cases "0 \<le> x")
    case True
    have "x * 1 \<le> x * 2 ^ j" using True by (intro mult_left_mono) simp_all
    with h show ?thesis by simp
  next
    case False
    then have "x < 0" by simp
    also have "(0::rat) < 2 ^ 52" by simp
    finally show ?thesis .
  qed
  have e: "2 * x * 2 ^ j = x * 2 ^ Suc j" by simp
  have "round64_up k' (2 * x) = of_int (round_even (2 * x * 2 ^ j)) / 2 ^ j"
    using Suc(2,3) jk by (intro Suc.IH) (simp_all only: e)
  then have "round64_up k' (2 * x) / 2 = of_int (round_even (x * 2 ^ Suc j)) / 2 ^ Suc j"
    by (simp only: e) simp
  then show ?case using x k by (simp only: round64_up_Suc)
qed

lemma round_even_down: "of_int m \<le> q \<Longrightarrow> q < of_int m + 1 / 2 \<Longrightarrow> round_even q = m"
proof -
  assume a: "of_int m \<le> q" and b: "q < of_int m + 1 / 2"
  have "\<lfloor>q\<rfloor> = m" using a b by (intro floor_unique) simp_all
  then show ?thesis using b by (simp add: round_even_def)
qed

lemma round_even_up: "of_int m - 1 / 2 < q \<Longrightarrow> q < of_int m \<Longrightarrow> round_even q = m"
proof -
  assume a: "of_int m - 1 / 2 < q" and b: "q < of_int m"
  have "\<lfloor>q\<rfloor> = m - 1" using a b by (intro floor_unique) simp_all
  then show ?thesis using a by (simp add: round_even_def)
qed

lemma round64_eval:
  "2 ^ 52 \<le> x * 2 ^ j \<Longrightarrow> x * 2 ^ j < 2 ^ 53 \<Longrightarrow> j \<le> 1074 \<Longrightarrow>
   round64 x = of_int (round_even (x * 2 ^ j)) / 2 ^ j"
  unfolding round64_def by (rule round64_up_eval)

lemma round64_up_dyadic:
  "0 < a \<Longrightarrow> a < 2 ^ 53 \<Longrightarrow> t \<le> k \<Longrightarrow> round64_up k (of_int a / 2 ^ t) = of_int a / 2 ^ t"
proof (induction k arbitrary: a t)
  case 0
  then have t: "t = 0" by simp
  have "(of_int a :: rat) < of_int (2 ^ 53)" using 0(2) by (simp only: of_int_less_iff)
  then have "(of_int a :: rat) < 2 ^ 53" by simp
  then show ?case unfolding t
    by (cases "(2 ^ 52 :: rat) \<le> of_int a")
       (simp_all add: round64_up_big round64_big_small round64_up_0 round_even_int not_le)
next
  case (Suc k)
  have a53: "(of_int a :: rat) < 2 ^ 53"
  proof -
    have "(of_int a :: rat) < of_int (2 ^ 53)" using Suc(3) by (simp only: of_int_less_iff)
    then show ?thesis by simp
  qed
  show ?case
  proof (cases t)
    case 0
    show ?thesis
    proof (cases "(2 ^ 52 :: rat) \<le> of_int a")
      case True
      then show ?thesis using a53 unfolding 0
        by (simp add: round64_up_big round64_big_small round_even_int)
    next
      case False
      then have lt: "(of_int a :: rat) < 2 ^ 52" by simp
      then have "(of_int a :: rat) < of_int (2 ^ 52)" by simp
      then have "a < 2 ^ 52" by (simp only: of_int_less_iff)
      then have a2: "2 * a < 2 ^ 53" by simp
      have "0 < 2 * a" using Suc(2) by simp
      from Suc.IH [OF this a2, of 0]
      have "round64_up k (of_int (2 * a)) = of_int (2 * a)" by simp
      then show ?thesis using lt unfolding 0 by (simp add: round64_up_Suc)
    qed
  next
    case (Suc t')
    then have t': "t' \<le> k" using Suc.prems(3) by simp
    have pos: "(0::rat) < of_int a" using Suc.prems(1) by simp
    have "(of_int a :: rat) / 2 ^ t \<le> of_int a / 2"
      unfolding Suc using pos by (simp add: field_simps)
    also have "\<dots> < 2 ^ 52" using a53 by simp
    finally have lt: "(of_int a :: rat) / 2 ^ t < 2 ^ 52" .
    have e: "2 * ((of_int a :: rat) / 2 ^ t) = of_int a / 2 ^ t'" unfolding Suc by simp
    from Suc.IH [OF Suc.prems(1) Suc.prems(2) t']
    have "round64_up k (of_int a / 2 ^ t') = of_int a / 2 ^ t'" .
    then show ?thesis using lt by (simp only: round64_up_Suc e) (simp add: Suc)
  qed
qed

lemma round64_dyadic:
  "0 < a \<Longrightarrow> a < 2 ^ 53 \<Longrightarrow> t \<le> 1074 \<Longrightarrow> round64 (of_int a / 2 ^ t) = of_int a / 2 ^ t"
  unfolding round64_def by (rule round64_up_dyadic)


section \<open>Backoff\<close>

lemma pow3_bound: "n \<le> 8 \<Longrightarrow> (0::int) < 3 ^ n \<and> (3::int) ^ n \<le> 6561"
proof -
  assume "n \<le> 8"
  then have "(3::int) ^ n \<le> 3 ^ 8" by (intro power_increasing) simp_all
  then show ?thesis by simp
qed

lemma scaled_pow_dyadic:
  assumes "n \<le> 8" and "0 < c" and "c \<le> 2600"
  shows "round64 (of_int c * (3 / 2) ^ n) = of_int c * (3 / 2) ^ n"
proof -
  from pow3_bound [OF assms(1)] have p: "(0::int) < 3 ^ n" "(3::int) ^ n \<le> 6561" by simp_all
  have pos: "0 < c * 3 ^ n" using assms(2) p(1) by simp
  have "c * 3 ^ n \<le> 2600 * 6561" using assms(2,3) p by (intro mult_mono) simp_all
  then have lt: "c * 3 ^ n < 2 ^ 53" by simp
  have n: "n \<le> 1074" using assms(1) by simp
  have e: "(of_int c :: rat) * (3 / 2) ^ n = of_int (c * 3 ^ n) / 2 ^ n"
    by (simp add: power_divide)
  show ?thesis unfolding e using pos lt n by (rule round64_dyadic)
qed

lemma round64_int: "0 < c \<Longrightarrow> c < 2 ^ 53 \<Longrightarrow> round64 (of_int c) = of_int c"
  using round64_dyadic [of c 0] by simp

lemma pow_le_cap: "n \<le> 8 \<Longrightarrow> 2000 * (3 / 2 :: rat) ^ n \<le> 60000"
proof -
  assume "n \<le> 8"
  then have "(3 / 2 :: rat) ^ n \<le> (3 / 2) ^ 8" by (intro power_increasing) simp_all
  also have "\<dots> \<le> 30" by (simp add: power_divide)
  finally show ?thesis by simp
qed

lemma pow_gt_cap: "9 \<le> n \<Longrightarrow> 32 \<le> (3 / 2 :: rat) ^ n"
proof -
  assume "9 \<le> n"
  then have a: "(3 / 2 :: rat) ^ 9 \<le> (3 / 2) ^ n" by (intro power_increasing) simp_all
  have b: "32 \<le> (3 / 2 :: rat) ^ 9" by (simp add: power_divide)
  from b a show ?thesis by (rule order_trans)
qed

lemma exponentialDelay_below_cap: "n \<le> 8 \<Longrightarrow> exponentialDelay n = 2000 * (3 / 2) ^ n"
proof -
  assume n: "n \<le> 8"
  from scaled_pow_dyadic [OF n, of 1] have a: "round64 ((3 / 2) ^ n) = (3 / 2) ^ n" by simp
  from scaled_pow_dyadic [OF n, of 2000]
  have b: "round64 (2000 * (3 / 2) ^ n) = 2000 * (3 / 2) ^ n" by simp
  show ?thesis using pow_le_cap [OF n] by (simp add: exponentialDelay_def BASE_DELAY_def MAX_DELAY_def a b)
qed

lemma exponentialDelay_at_cap: "9 \<le> n \<Longrightarrow> exponentialDelay n = 60000"
proof -
  assume n: "9 \<le> n"
  have "round64 32 \<le> round64 ((3 / 2) ^ n)" using pow_gt_cap [OF n] by (rule round64_mono)
  moreover have "round64 32 = 32" using round64_int [of 32] by simp
  ultimately have "32 \<le> round64 ((3 / 2) ^ n)" by simp
  then have "64000 \<le> 2000 * round64 ((3 / 2) ^ n)" by simp
  then have "round64 64000 \<le> round64 (2000 * round64 ((3 / 2) ^ n))" by (rule round64_mono)
  moreover have "round64 64000 = 64000" using round64_int [of 64000] by simp
  ultimately have "64000 \<le> round64 (2000 * round64 ((3 / 2) ^ n))" by simp
  then show ?thesis by (simp add: exponentialDelay_def BASE_DELAY_def MAX_DELAY_def)
qed

lemma exponentialDelay_exact: "exponentialDelay n = min (2000 * (3 / 2) ^ n) 60000"
proof (cases "n \<le> 8")
  case True
  then show ?thesis using pow_le_cap [OF True] by (simp add: exponentialDelay_below_cap)
next
  case False
  then have n: "9 \<le> n" by simp
  from pow_gt_cap [OF n] have "60000 \<le> 2000 * (3 / 2 :: rat) ^ n" by simp
  then show ?thesis using n by (simp add: exponentialDelay_at_cap)
qed

lemma exponentialDelay_mono: "n \<le> m \<Longrightarrow> exponentialDelay n \<le> exponentialDelay m"
  unfolding exponentialDelay_exact
  by (intro min.mono mult_left_mono power_increasing) auto

lemma exponentialDelay_bounds: "0 \<le> exponentialDelay n" "exponentialDelay n \<le> 60000"
  by (simp_all add: exponentialDelay_exact)

lemma exponentialDelay_grid:
  "round64 (exponentialDelay n) = exponentialDelay n"
  "round64 (3 / 10 * exponentialDelay n) = 3 / 10 * exponentialDelay n"
  "round64 (13 / 10 * exponentialDelay n) = 13 / 10 * exponentialDelay n"
proof -
  have "round64 (exponentialDelay n) = exponentialDelay n \<and>
        round64 (3 / 10 * exponentialDelay n) = 3 / 10 * exponentialDelay n \<and>
        round64 (13 / 10 * exponentialDelay n) = 13 / 10 * exponentialDelay n"
  proof (cases "n \<le> 8")
    case True
    from scaled_pow_dyadic [OF True, of 2000]
    have a: "round64 (2000 * (3 / 2) ^ n) = 2000 * (3 / 2) ^ n" by simp
    from scaled_pow_dyadic [OF True, of 600]
    have b: "round64 (600 * (3 / 2) ^ n) = 600 * (3 / 2) ^ n" by simp
    from scaled_pow_dyadic [OF True, of 2600]
    have c: "round64 (2600 * (3 / 2) ^ n) = 2600 * (3 / 2) ^ n" by simp
    show ?thesis by (simp add: exponentialDelay_below_cap [OF True] a b c)
  next
    case False
    then have n: "9 \<le> n" by simp
    have a: "round64 60000 = 60000" using round64_int [of 60000] by simp
    have b: "round64 18000 = 18000" using round64_int [of 18000] by simp
    have c: "round64 78000 = 78000" using round64_int [of 78000] by simp
    show ?thesis by (simp add: exponentialDelay_at_cap [OF n] a b c)
  qed
  then show "round64 (exponentialDelay n) = exponentialDelay n"
    "round64 (3 / 10 * exponentialDelay n) = 3 / 10 * exponentialDelay n"
    "round64 (13 / 10 * exponentialDelay n) = 13 / 10 * exponentialDelay n" by simp_all
qed

lemma round64_three_tenths: "round64 (3 / 10) = 5404319552844595 / 18014398509481984"
proof -
  have r: "round_even (3 / 10 * 2 ^ 54) = 5404319552844595"
    by (rule round_even_down) simp_all
  have "round64 (3 / 10) = of_int (round_even (3 / 10 * 2 ^ 54)) / 2 ^ 54"
    by (rule round64_eval) simp_all
  then show ?thesis unfolding r by simp
qed

lemma round64_three_tenths_fixed:
  "round64 (5404319552844595 / 18014398509481984) = 5404319552844595 / 18014398509481984"
  using round64_dyadic [of 5404319552844595 54] by simp

lemma jitter_bounds:
  assumes "0 \<le> r" and "r < 1"
  shows "0 \<le> round64 (round64 (r * round64 (3 / 10)) * exponentialDelay n)"
    and "round64 (round64 (r * round64 (3 / 10)) * exponentialDelay n) \<le> 3 / 10 * exponentialDelay n"
proof -
  let ?c = "5404319552844595 / 18014398509481984 :: rat"
  let ?d = "exponentialDelay n"
  let ?a = "round64 (r * ?c)"
  have d0: "0 \<le> ?d" by (rule exponentialDelay_bounds)
  have "0 \<le> r * ?c" using assms(1) by simp
  then have a0: "0 \<le> ?a" by (rule round64_nonneg)
  have "r * ?c \<le> 1 * ?c" using assms by (intro mult_right_mono) simp_all
  then have "r * ?c \<le> ?c" by simp
  then have "?a \<le> round64 ?c" by (rule round64_mono)
  then have a1: "?a \<le> ?c" by (simp only: round64_three_tenths_fixed)
  have "0 \<le> ?a * ?d" using a0 d0 by simp
  then have j0: "0 \<le> round64 (?a * ?d)" by (rule round64_nonneg)
  have "?a * ?d \<le> ?c * ?d" using a1 d0 by (rule mult_right_mono)
  also have "\<dots> \<le> 3 / 10 * ?d" using d0 by (intro mult_right_mono) simp_all
  finally have "round64 (?a * ?d) \<le> round64 (3 / 10 * ?d)" by (rule round64_mono)
  then have j1: "round64 (?a * ?d) \<le> 3 / 10 * ?d" by (simp only: exponentialDelay_grid)
  from j0 show "0 \<le> round64 (round64 (r * round64 (3 / 10)) * exponentialDelay n)"
    by (simp only: round64_three_tenths)
  from j1 show "round64 (round64 (r * round64 (3 / 10)) * exponentialDelay n) \<le> 3 / 10 * exponentialDelay n"
    by (simp only: round64_three_tenths)
qed

lemma calculateBackoff_upper:
  assumes "0 \<le> r" and "r < 1"
  shows "of_int (calculateBackoff n r) \<le> exponentialDelay n * (13 / 10)"
proof -
  let ?d = "exponentialDelay n"
  let ?j = "round64 (round64 (r * round64 (3 / 10)) * ?d)"
  have "?d + ?j \<le> 13 / 10 * ?d" using jitter_bounds(2) [OF assms, of n] by simp
  then have "round64 (?d + ?j) \<le> round64 (13 / 10 * ?d)" by (rule round64_mono)
  then have g: "round64 (?d + ?j) \<le> 13 / 10 * ?d" by (simp only: exponentialDelay_grid)
  have f: "of_int \<lfloor>round64 (?d + ?j)\<rfloor> \<le> round64 (?d + ?j)" by (rule of_int_floor_le)
  from f g have "of_int \<lfloor>round64 (?d + ?j)\<rfloor> \<le> 13 / 10 * ?d" by (rule order_trans)
  then have "of_int \<lfloor>round64 (?d + ?j)\<rfloor> \<le> ?d * (13 / 10)" by (simp only: mult.commute)
  then show ?thesis by (simp only: calculateBackoff_def Let_def)
qed

lemma calculateBackoff_lower:
  assumes "0 \<le> r" and "r < 1"
  shows "\<lfloor>exponentialDelay n\<rfloor> \<le> calculateBackoff n r"
proof -
  let ?d = "exponentialDelay n"
  let ?j = "round64 (round64 (r * round64 (3 / 10)) * ?d)"
  have "?d \<le> ?d + ?j" using jitter_bounds(1) [OF assms, of n] by simp
  then have "round64 ?d \<le> round64 (?d + ?j)" by (rule round64_mono)
  then have "?d \<le> round64 (?d + ?j)" by (simp only: exponentialDelay_grid)
  then have "\<lfloor>?d\<rfloor> \<le> \<lfloor>round64 (?d + ?j)\<rfloor>" by (rule floor_mono)
  then show ?thesis by (simp add: calculateBackoff_def Let_def)
qed

lemma calculateBackoff_no_jitter: "calculateBackoff n 0 = \<lfloor>exponentialDelay n\<rfloor>"
  by (simp add: calculateBackoff_def Let_def round64_zero exponentialDelay_grid)

lemma exponentialDelay_5: "exponentialDelay 5 = 30375 / 2"
  using exponentialDelay_below_cap [of 5] by (simp add: power_divide)

text \<open>
  The exact formula \<open>floor (d + r * 0.3 * d)\<close> is not what the program computes: with no
  failed attempt and the draw \<open>(2 ^ 53 - 1) / 2 ^ 54\<close> the rounded sum is \<open>2300\<close>, where the
  exact one is below \<open>2300\<close> and its floor \<open>2299\<close>.
\<close>

lemma calculateBackoff_rounds_up:
  "calculateBackoff 0 (9007199254740991 / 18014398509481984) = 2300 \<and>
   \<lfloor>2000 + 9007199254740991 / 18014398509481984 * (3 / 10) * (2000 :: rat)\<rfloor> = 2299"
proof
  have v1: "round64 (48677783048764001811713999293645 / 324518553658426726783156020576256) = 2702159776422297 / 18014398509481984"
  proof -
    have r: "round_even (48677783048764001811713999293645 / 324518553658426726783156020576256 * 2 ^ 55) = 5404319552844594"
      by (rule round_even_down) simp_all
    have "round64 (48677783048764001811713999293645 / 324518553658426726783156020576256) = of_int (round_even (48677783048764001811713999293645 / 324518553658426726783156020576256 * 2 ^ 55)) / 2 ^ 55"
      by (rule round64_eval) simp_all
    then show ?thesis unfolding r by simp
  qed
  have v2: "round64 (337769972052787125 / 1125899906842624) = 5277655813324799 / 17592186044416"
  proof -
    have r: "round_even (337769972052787125 / 1125899906842624 * 2 ^ 44) = 5277655813324799"
      by (rule round_even_up) simp_all
    have "round64 (337769972052787125 / 1125899906842624) = of_int (round_even (337769972052787125 / 1125899906842624 * 2 ^ 44)) / 2 ^ 44"
      by (rule round64_eval) simp_all
    then show ?thesis unfolding r by simp
  qed
  have v3: "round64 (40462027902156799 / 17592186044416) = 2300"
  proof -
    have r: "round_even (40462027902156799 / 17592186044416 * 2 ^ 41) = 5057753487769600"
      by (rule round_even_up) simp_all
    have "round64 (40462027902156799 / 17592186044416) = of_int (round_even (40462027902156799 / 17592186044416 * 2 ^ 41)) / 2 ^ 41"
      by (rule round64_eval) simp_all
    then show ?thesis unfolding r by simp
  qed
  have d: "exponentialDelay 0 = 2000" using exponentialDelay_below_cap [of 0] by simp
  show "calculateBackoff 0 (9007199254740991 / 18014398509481984) = 2300"
    by (simp add: calculateBackoff_def Let_def d round64_three_tenths v1 v2 v3)
  show "\<lfloor>2000 + 9007199254740991 / 18014398509481984 * (3 / 10) * (2000 :: rat)\<rfloor> = 2299"
    by (rule floor_unique) simp_all
qed

text \<open>
  The largest delay is reached: at the cap, with the draw \<open>1 - 2 ^ -53\<close>, the rounded sum is
  \<open>60000 * 1.3\<close>.
\<close>

lemma calculateBackoff_reaches_maximum:
  "calculateBackoff 9 (9007199254740991 / 9007199254740992) = 78000"
proof -
  have v1: "round64 (48677783048764001811713999293645 / 162259276829213363391578010288128) = 2702159776422297 / 9007199254740992"
  proof -
    have r: "round_even (48677783048764001811713999293645 / 162259276829213363391578010288128 * 2 ^ 54) = 5404319552844594"
      by (rule round_even_down) simp_all
    have "round64 (48677783048764001811713999293645 / 162259276829213363391578010288128) = of_int (round_even (48677783048764001811713999293645 / 162259276829213363391578010288128 * 2 ^ 54)) / 2 ^ 54"
      by (rule round64_eval) simp_all
    then show ?thesis unfolding r by simp
  qed
  have v2: "round64 (5066549580791806875 / 281474976710656) = 4947802324991999 / 274877906944"
  proof -
    have r: "round_even (5066549580791806875 / 281474976710656 * 2 ^ 38) = 4947802324991999"
      by (rule round_even_up) simp_all
    have "round64 (5066549580791806875 / 281474976710656) = of_int (round_even (5066549580791806875 / 281474976710656 * 2 ^ 38)) / 2 ^ 38"
      by (rule round64_eval) simp_all
    then show ?thesis unfolding r by simp
  qed
  have v3: "round64 (21440476741631999 / 274877906944) = 78000"
  proof -
    have r: "round_even (21440476741631999 / 274877906944 * 2 ^ 36) = 5360119185408000"
      by (rule round_even_up) simp_all
    have "round64 (21440476741631999 / 274877906944) = of_int (round_even (21440476741631999 / 274877906944 * 2 ^ 36)) / 2 ^ 36"
      by (rule round64_eval) simp_all
    then show ?thesis unfolding r by simp
  qed
  have d: "exponentialDelay 9 = 60000" by (rule exponentialDelay_at_cap) simp
  show ?thesis
    by (simp add: calculateBackoff_def Let_def d round64_three_tenths v1 v2 v3)
qed

text \<open>
  C4, as stated, fails in its lower bound: the delay is rounded down, so where
  \<open>2000 * 1.5 ^ n\<close> is not a whole number a small jitter leaves the result below it. At
  \<open>n = 5\<close> with the draw \<open>0\<close> (inside \<open>[0, 1)\<close>, below the cap) the delay is \<open>15187\<close>,
  less than \<open>2000 * 1.5 ^ 5 = 15187.5\<close>.
\<close>

theorem C4_lower_bound_counterexample:
  "(0::rat) \<le> 0 \<and> (0::rat) < 1 \<and> 2000 * (3 / 2) ^ 5 \<le> (60000::rat) \<and>
   calculateBackoff 5 0 = 15187 \<and>
   \<not> (2000 * (3 / 2) ^ 5 \<le> (of_int (calculateBackoff 5 0) :: rat))"
proof -
  have "\<lfloor>30375 / 2 :: rat\<rfloor> = 15187" by (rule floor_unique) simp_all
  then have c: "calculateBackoff 5 0 = 15187"
    by (simp only: calculateBackoff_no_jitter exponentialDelay_5)
  show ?thesis unfolding c by (simp add: power_divide)
qed

text \<open>
  C4, amended. For every attempt count \<open>n\<close> and jitter draw \<open>r\<close> in \<open>[0, 1)\<close>: the delay
  before jitter is exactly \<open>d = min (2000 * 1.5 ^ n) 60000\<close>; the delay is the floor of
  \<open>d + r * 0.3 * d\<close> as evaluated in double precision, every product and the sum rounded to
  the nearest double; \<open>d\<close> never decreases as \<open>n\<close> grows; below the cap the delay lies between
  \<open>floor (2000 * 1.5 ^ n)\<close> and \<open>2000 * 1.5 ^ n * 1.3\<close>; and it never exceeds \<open>60000 * 1.3\<close>.
\<close>

theorem C4_backoff_bounds:
  assumes "0 \<le> r" and "r < 1"
  shows "exponentialDelay n = min (2000 * (3 / 2) ^ n) 60000 \<and>
         calculateBackoff n r =
           \<lfloor>round64 (exponentialDelay n +
              round64 (round64 (r * round64 (3 / 10)) * exponentialDelay n))\<rfloor> \<and>
         (\<forall>m. n \<le> m \<longrightarrow> exponentialDelay n \<le> exponentialDelay m) \<and>
         (2000 * (3 / 2) ^ n \<le> (60000::rat) \<longrightarrow>
            \<lfloor>2000 * (3 / 2) ^ n :: rat\<rfloor> \<le> calculateBackoff n r \<and>
            of_int (calculateBackoff n r) \<le> 2000 * (3 / 2) ^ n * (13 / 10 :: rat)) \<and>
         of_int (calculateBackoff n r) \<le> (60000 * (13 / 10) :: rat)"
proof (intro conjI allI impI)
  show d: "exponentialDelay n = min (2000 * (3 / 2) ^ n) 60000"
    by (rule exponentialDelay_exact)
  show "calculateBackoff n r =
           \<lfloor>round64 (exponentialDelay n +
              round64 (round64 (r * round64 (3 / 10)) * exponentialDelay n))\<rfloor>"
    by (simp add: calculateBackoff_def Let_def)
  show "exponentialDelay n \<le> exponentialDelay m" if "n \<le> m" for m
    using that by (rule exponentialDelay_mono)
  have up: "of_int (calculateBackoff n r) \<le> exponentialDelay n * (13 / 10)"
    using assms by (rule calculateBackoff_upper)
  have lo: "\<lfloor>exponentialDelay n\<rfloor> \<le> calculateBackoff n r"
    using assms by (rule calculateBackoff_lower)
  show "\<lfloor>2000 * (3 / 2) ^ n :: rat\<rfloor> \<le> calculateBackoff n r"
    if "2000 * (3 / 2) ^ n \<le> (60000::rat)"
    using that lo d by simp
  show "of_int (calculateBackoff n r) \<le> 2000 * (3 / 2) ^ n * (13 / 10 :: rat)"
    if "2000 * (3 / 2) ^ n \<le> (60000::rat)"
    using that up d by simp
  from up exponentialDelay_bounds(2) [of n]
  show "of_int (calculateBackoff n r) \<le> (60000 * (13 / 10) :: rat)" by linarith
qed

theorem C4_backoff_bounds_witness:
  "(0::rat) \<le> 1 / 2 \<and> (1 / 2 :: rat) < 1 \<and> 2000 * (3 / 2) ^ 5 \<le> (60000::rat) \<and>
   (5::nat) \<le> 6 \<and> exponentialDelay 5 \<le> exponentialDelay 6 \<and>
   \<lfloor>2000 * (3 / 2) ^ 5 :: rat\<rfloor> \<le> calculateBackoff 5 (1 / 2) \<and>
   of_int (calculateBackoff 5 (1 / 2)) \<le> 2000 * (3 / 2) ^ 5 * (13 / 10 :: rat) \<and>
   of_int (calculateBackoff 5 (1 / 2)) \<le> (60000 * (13 / 10) :: rat)"
proof -
  have a: "(0::rat) \<le> 1 / 2" and b: "(1 / 2 :: rat) < 1" by simp_all
  have c: "2000 * (3 / 2) ^ 5 \<le> (60000::rat)" by (simp add: power_divide)
  have d: "(5::nat) \<le> 6" by simp
  from C4_backoff_bounds [OF a b, of 5] a b c d show ?thesis by blast
qed


section \<open>Poll exhaustion\<close>

lemma show_120: "show_nat 120 = ''120''"
  by code_simp

lemma timeout_reason_eq: "timeout_reason = ''Attestation timeout after 120 attempts''"
  by (simp add: timeout_reason_def MAX_ATTEMPTS_def show_120)

lemma checkAttestation_keeps_row:
  "st bridgeId = Some tx \<Longrightarrow> \<exists>tx'. fst (checkAttestation e st now bridgeId c) bridgeId = Some tx'"
  by (auto simp: checkAttestation_def getTransaction_def update_row_def
           split: option.splits sum.splits collaborator.splits)

lemma processJob_retry:
  assumes "js (job_id job) = Some job" and "st (job_id job) = Some tx"
    and "not_ready (snd (checkAttestation e st now (job_id job) c))"
    and "attempts job + 1 < MAX_ATTEMPTS"
  shows "\<exists>job' tx'. fst (processJob e (js, st) job now random c) (job_id job) = Some job' \<and>
           job_id job' = job_id job \<and> attempts job' = attempts job + 1 \<and>
           snd (processJob e (js, st) job now random c) (job_id job) = Some tx'"
proof -
  obtain st' res where c: "checkAttestation e st now (job_id job) c = (st', res)" by force
  from assms(2) have "\<exists>tx'. fst (checkAttestation e st now (job_id job) c) (job_id job) = Some tx'"
    by (rule checkAttestation_keeps_row)
  with c obtain tx' where "st' (job_id job) = Some tx'" by auto
  with assms c show ?thesis
    by (cases res) (auto simp: processJob_def Let_def)
qed

lemma processJob_exhausted:
  assumes "js (job_id job) = Some job" and "st (job_id job) = Some tx"
    and "not_ready (snd (checkAttestation e st now (job_id job) c))"
    and "MAX_ATTEMPTS \<le> attempts job + 1"
  shows "fst (processJob e (js, st) job now random c) (job_id job) = None \<and>
         (\<exists>tx'. snd (processJob e (js, st) job now random c) (job_id job) = Some tx' \<and>
                status tx' = Failed \<and> errorMessage tx' = Some timeout_reason)"
proof -
  obtain st' res where c: "checkAttestation e st now (job_id job) c = (st', res)" by force
  from assms(2) have "\<exists>tx'. fst (checkAttestation e st now (job_id job) c) (job_id job) = Some tx'"
    by (rule checkAttestation_keeps_row)
  with c obtain tx' where "st' (job_id job) = Some tx'" by auto
  with assms c show ?thesis
    by (cases res) (auto simp: processJob_def Let_def markFailed_def update_row_def)
qed

lemma poll_untracked: "fst ws bridgeId = None \<Longrightarrow> poll e ws bridgeId xs = ws"
  by (cases xs) auto

lemma poll_exhausts:
  "js bridgeId = Some job \<Longrightarrow> job_id job = bridgeId \<Longrightarrow> st bridgeId = Some tx \<Longrightarrow>
   consistently_not_ready e (js, st) bridgeId xs \<Longrightarrow> xs \<noteq> [] \<Longrightarrow>
   MAX_ATTEMPTS \<le> attempts job + length xs \<Longrightarrow>
   fst (poll e (js, st) bridgeId xs) bridgeId = None \<and>
   (\<exists>tx'. snd (poll e (js, st) bridgeId xs) bridgeId = Some tx' \<and>
          status tx' = Failed \<and> errorMessage tx' = Some timeout_reason)"
proof (induction xs arbitrary: js st job tx)
  case Nil
  then show ?case by simp
next
  case (Cons x xs)
  obtain now random c where x: "x = (now, random, c)" by (cases x)
  from Cons.prems x have nr: "not_ready (snd (checkAttestation e st now (job_id job) c))"
    and rest: "consistently_not_ready e (processJob e (js, st) job now random c) bridgeId xs"
    by auto
  let ?ws = "processJob e (js, st) job now random c"
  from Cons.prems have j: "js (job_id job) = Some job" and t: "st (job_id job) = Some tx" by auto
  show ?case
  proof (cases "MAX_ATTEMPTS \<le> attempts job + 1")
    case True
    from j t nr True
    have "fst ?ws (job_id job) = None \<and>
         (\<exists>tx'. snd ?ws (job_id job) = Some tx' \<and> status tx' = Failed \<and> errorMessage tx' = Some timeout_reason)"
      by (rule processJob_exhausted)
    moreover from this Cons.prems have "poll e ?ws bridgeId xs = ?ws" by (simp add: poll_untracked)
    ultimately show ?thesis using Cons.prems x by simp
  next
    case False
    then have lt: "attempts job + 1 < MAX_ATTEMPTS" by simp
    from j t nr lt
    have "\<exists>job' tx'. fst ?ws (job_id job) = Some job' \<and> job_id job' = job_id job \<and>
            attempts job' = attempts job + 1 \<and> snd ?ws (job_id job) = Some tx'"
      by (rule processJob_retry)
    then obtain job' tx' where j': "fst ?ws bridgeId = Some job'" and id': "job_id job' = bridgeId"
      and a': "attempts job' = attempts job + 1" and t': "snd ?ws bridgeId = Some tx'"
      using Cons.prems by auto
    from lt Cons.prems have ne: "xs \<noteq> []" by auto
    from a' Cons.prems have len: "MAX_ATTEMPTS \<le> attempts job' + length xs" by simp
    obtain js' st' where ws: "?ws = (js', st')" by force
    from Cons.IH [of js' job' st' tx'] j' id' t' rest ne len ws
    have "fst (poll e ?ws bridgeId xs) bridgeId = None \<and>
          (\<exists>tx'. snd (poll e ?ws bridgeId xs) bridgeId = Some tx' \<and>
            status tx' = Failed \<and> errorMessage tx' = Some timeout_reason)"
      by simp
    then show ?thesis using Cons.prems x by simp
  qed
qed

text \<open>
  C8. Take a tracked job for an existing transfer and any run of the poller on it in which
  every attestation check answers without throwing and without an attestation. If the run
  is long enough for the attempt count to reach the maximum of 120, then at its end the job
  is no longer in the job set and the transfer has status \<open>failed\<close> with the error message
  \<open>Attestation timeout after 120 attempts\<close>.
\<close>

theorem C8_poll_exhaustion:
  assumes "js bridgeId = Some job" and "job_id job = bridgeId" and "st bridgeId = Some tx"
    and "consistently_not_ready e (js, st) bridgeId xs"
    and "xs \<noteq> []" and "MAX_ATTEMPTS \<le> attempts job + length xs"
  shows "MAX_ATTEMPTS = 120 \<and>
         fst (poll e (js, st) bridgeId xs) bridgeId = None \<and>
         (\<exists>tx'. snd (poll e (js, st) bridgeId xs) bridgeId = Some tx' \<and>
                status tx' = Failed \<and>
                errorMessage tx' = Some ''Attestation timeout after 120 attempts'')"
  using poll_exhausts [OF assms] by (simp add: timeout_reason_eq MAX_ATTEMPTS_def)


theorem C8_poll_exhaustion_witness:
  "example_jobs ''t1'' = Some example_job \<and> job_id example_job = ''t1'' \<and>
   burned_store ''t1'' = Some burned_tx \<and>
   consistently_not_ready example_ext (example_jobs, burned_store) ''t1''
      [(10, 0, Http pending_answer), (20, 1 / 2, Http (Response 404 InvalidJson))] \<and>
   MAX_ATTEMPTS \<le> attempts example_job
      + length [(10::nat, 0::rat, Http pending_answer), (20, 1 / 2, Http (Response 404 InvalidJson))] \<and>
   fst (poll example_ext (example_jobs, burned_store) ''t1''
      [(10, 0, Http pending_answer), (20, 1 / 2, Http (Response 404 InvalidJson))]) ''t1'' = None \<and>
   (\<exists>tx'. snd (poll example_ext (example_jobs, burned_store) ''t1''
      [(10, 0, Http pending_answer), (20, 1 / 2, Http (Response 404 InvalidJson))]) ''t1'' = Some tx' \<and>
          status tx' = Failed \<and>
          errorMessage tx' = Some ''Attestation timeout after 120 attempts'')"
proof -
  have h1: "example_jobs ''t1'' = Some example_job" by (simp add: example_jobs_def)
  have h2: "job_id example_job = ''t1''" by (simp add: example_job_def)
  have h3: "burned_store ''t1'' = Some burned_tx" by (simp add: burned_store_def)
  have h4: "consistently_not_ready example_ext (example_jobs, burned_store) ''t1''
      [(10, 0, Http pending_answer), (20, 1 / 2, Http (Response 404 InvalidJson))]"
    by (simp add: service_defs example_defs processJob_def example_jobs_def example_job_def
        burned_store_def burned_tx_def pending_answer_def MAX_ATTEMPTS_def Let_def)
  have h5: "[(10::nat, 0::rat, Http pending_answer), (20, 1 / 2, Http (Response 404 InvalidJson))] \<noteq> []"
    by simp
  have h6: "MAX_ATTEMPTS \<le> attempts example_job
      + length [(10::nat, 0::rat, Http pending_answer), (20, 1 / 2, Http (Response 404 InvalidJson))]"
    by (simp add: MAX_ATTEMPTS_def example_job_def)
  from C8_poll_exhaustion [OF h1 h2 h3 h4 h5 h6] h1 h2 h3 h4 h6 show ?thesis by blast
qed


section \<open>Felt arrays\<close>


lemma digit_value_digit_char: "d < 10 \<Longrightarrow> digit_value (digit_char d) = Some d"
  by (simp add: digit_value_def digit_char_def Let_def)

lemma parse_digits_append:
  "parse_digits radix acc (xs @ ys) =
     (case parse_digits radix acc xs of None \<Rightarrow> None | Some v \<Rightarrow> parse_digits radix v ys)"
  by (induction xs arbitrary: acc) (auto split: option.splits)

lemma show_nat_nonempty: "show_nat n \<noteq> []"
  by (subst show_nat.simps) simp

lemma parse_show_nat: "parse_digits 10 0 (show_nat n) = Some n"
proof (induction n rule: show_nat.induct)
  case (1 n)
  show ?case
  proof (cases "n < 10")
    case True
    then show ?thesis by (subst show_nat.simps) (simp add: digit_value_digit_char)
  next
    case False
    with 1 have ih: "parse_digits 10 0 (show_nat (n div 10)) = Some (n div 10)" by simp
    have "n mod 10 < 10" by simp
    then have dv: "digit_value (digit_char (n mod 10)) = Some (n mod 10)" by (rule digit_value_digit_char)
    from False show ?thesis
      by (subst show_nat.simps) (simp add: parse_digits_append ih dv)
  qed
qed

lemma read_show_nat: "read_nat (show_nat n) = Some n"
  by (simp add: read_nat_def parse_radix_def show_nat_nonempty parse_show_nat)

lemma loop_step:
  "i < length s \<Longrightarrow>
   hexToFeltArray_loop i s acc = hexToFeltArray_loop (i + 62) s (acc @ [''0x'' @ take 62 (drop i s)])"
  by (subst hexToFeltArray_loop.simps) simp

lemma loop_done: "\<not> i < length s \<Longrightarrow> hexToFeltArray_loop i s acc = acc"
  by (subst hexToFeltArray_loop.simps) simp

lemma loop_acc: "hexToFeltArray_loop i s acc = acc @ hexToFeltArray_loop i s []"
proof (induction "length s - i" arbitrary: i acc rule: less_induct)
  case less
  show ?case
  proof (cases "i < length s")
    case True
    then have m: "length s - (i + 62) < length s - i" by simp
    let ?c = "''0x'' @ take 62 (drop i s)"
    have "hexToFeltArray_loop i s acc = hexToFeltArray_loop (i + 62) s (acc @ [?c])"
      using True by (rule loop_step)
    also have "\<dots> = (acc @ [?c]) @ hexToFeltArray_loop (i + 62) s []"
      using m by (rule less)
    also have "\<dots> = acc @ ([?c] @ hexToFeltArray_loop (i + 62) s [])" by simp
    also have "[?c] @ hexToFeltArray_loop (i + 62) s [] = hexToFeltArray_loop (i + 62) s [?c]"
      using less [OF m, of "[?c]"] by simp
    also have "\<dots> = hexToFeltArray_loop i s []"
      using loop_step [OF True, of "[]"] by simp
    finally show ?thesis .
  next
    case False
    then show ?thesis by (simp add: loop_done)
  qed
qed

lemma loop_unfold:
  "i < length s \<Longrightarrow>
   hexToFeltArray_loop i s [] = (''0x'' @ take 62 (drop i s)) # hexToFeltArray_loop (i + 62) s []"
  using loop_step [of i s "[]"] loop_acc [of "i + 62" s "[''0x'' @ take 62 (drop i s)]"] by simp

lemma loop_payload: "concat (map (drop 2) (hexToFeltArray_loop i s [])) = drop i s"
proof (induction "length s - i" arbitrary: i rule: less_induct)
  case less
  show ?case
  proof (cases "i < length s")
    case True
    then have m: "length s - (i + 62) < length s - i" by simp
    have "concat (map (drop 2) (hexToFeltArray_loop i s []))
            = take 62 (drop i s) @ concat (map (drop 2) (hexToFeltArray_loop (i + 62) s []))"
      using True by (simp add: loop_unfold)
    also have "\<dots> = take 62 (drop i s) @ drop (i + 62) s" using less [OF m] by simp
    finally have a: "concat (map (drop 2) (hexToFeltArray_loop i s []))
            = take 62 (drop i s) @ drop (i + 62) s" .
    have b: "drop (i + 62) s = drop 62 (drop i s)" by (simp add: add.commute)
    have c: "take 62 (drop i s) @ drop 62 (drop i s) = drop i s" by (rule append_take_drop_id)
    from a b c show ?thesis by (simp only:)
  next
    case False
    then show ?thesis by (simp add: loop_done)
  qed
qed

lemma loop_chunks:
  "c \<in> set (hexToFeltArray_loop i s []) \<Longrightarrow>
   \<exists>p. c = ''0x'' @ p \<and> p \<noteq> [] \<and> length p \<le> 62"
proof (induction "length s - i" arbitrary: i rule: less_induct)
  case less
  show ?case
  proof (cases "i < length s")
    case True
    then have m: "length s - (i + 62) < length s - i" by simp
    from less.prems True
    have "c = ''0x'' @ take 62 (drop i s) \<or> c \<in> set (hexToFeltArray_loop (i + 62) s [])"
      by (simp add: loop_unfold)
    then show ?thesis
    proof
      assume "c = ''0x'' @ take 62 (drop i s)"
      with True show ?thesis by auto
    next
      assume "c \<in> set (hexToFeltArray_loop (i + 62) s [])"
      with m show ?thesis by (rule less.hyps)
    qed
  next
    case False
    with less.prems show ?thesis by (simp add: loop_done)
  qed
qed

lemma js_replace_absent:
  "CHR ''x'' \<notin> set s \<Longrightarrow> js_replace s ''0x'' [] = s"
proof (induction s)
  case Nil
  then show ?case by simp
next
  case (Cons c cs)
  then have "\<not> startsWith (c # cs) ''0x''" by (cases cs) (auto simp: startsWith_def)
  with Cons show ?case by simp
qed


lemma is_hex_no_x: "is_hex s \<Longrightarrow> CHR ''x'' \<notin> set s"
proof
  assume h: "is_hex s" and x: "CHR ''x'' \<in> set s"
  then have "digit_value CHR ''x'' \<noteq> None" unfolding is_hex_def list_all_iff by blast
  then show False by (simp add: digit_value_def)
qed

lemma decode_felts_encoded:
  "decode_felts (show_nat (length xs) # xs @ rest) = Some (concat (map (drop 2) xs), rest)"
  by (simp add: decode_felts_def read_show_nat)

lemma decode_mint:
  "decode_mint_calldata (show_nat (length xs) # xs @ show_nat (length ys) # ys)
     = Some (concat (map (drop 2) xs), concat (map (drop 2) ys))"
  using decode_felts_encoded [of xs "show_nat (length ys) # ys"] decode_felts_encoded [of ys "[]"]
  by (simp add: decode_mint_calldata_def)


text \<open>
  C10. Every chunk \<open>hexToFeltArray\<close> produces is \<open>0x\<close> followed by between 1 and 62 hex digits
  (at most 31 bytes), and the chunk payloads joined in order are the input with its \<open>0x\<close>
  removed: for a string \<open>h\<close> of hex digits, passed with or without the prefix, they are \<open>h\<close>
  itself. Hence the calldata of the Starknet mint call, a count followed by the message chunks
  and a count followed by the attestation chunks, reads back to exactly the message and the
  attestation digits.
\<close>

theorem C10_felt_chunks_lossless:
  "(\<forall>c \<in> set (hexToFeltArray hex). \<exists>p. c = ''0x'' @ p \<and> p \<noteq> [] \<and> length p \<le> 62) \<and>
   concat (map (drop 2) (hexToFeltArray hex)) = js_replace hex ''0x'' [] \<and>
   (is_hex h \<longrightarrow> concat (map (drop 2) (hexToFeltArray (''0x'' @ h))) = h \<and>
                  concat (map (drop 2) (hexToFeltArray h)) = h) \<and>
   (\<forall>cfg. getChainConfig reg STARKNET_DOMAIN_ID = Some cfg \<longrightarrow>
      (\<exists>call. buildStarknetMintCall reg msg att = Inr call \<and>
         decode_mint_calldata (calldata call) = Some (js_replace msg ''0x'' [], js_replace att ''0x'' [])))"
proof (intro conjI ballI impI allI)
  fix c assume "c \<in> set (hexToFeltArray hex)"
  then show "\<exists>p. c = ''0x'' @ p \<and> p \<noteq> [] \<and> length p \<le> 62"
    unfolding hexToFeltArray_def by (rule loop_chunks)
next
  show "concat (map (drop 2) (hexToFeltArray hex)) = js_replace hex ''0x'' []"
    by (simp add: hexToFeltArray_def loop_payload)
next
  assume "is_hex h"
  show "concat (map (drop 2) (hexToFeltArray (''0x'' @ h))) = h"
    by (simp add: hexToFeltArray_def loop_payload startsWith_def)
next
  assume "is_hex h"
  then have "js_replace h ''0x'' [] = h" by (intro js_replace_absent is_hex_no_x)
  then show "concat (map (drop 2) (hexToFeltArray h)) = h"
    by (simp add: hexToFeltArray_def loop_payload)
next
  fix cfg assume "getChainConfig reg STARKNET_DOMAIN_ID = Some cfg"
  then show "\<exists>call. buildStarknetMintCall reg msg att = Inr call \<and>
         decode_mint_calldata (calldata call) = Some (js_replace msg ''0x'' [], js_replace att ''0x'' [])"
    by (simp add: buildStarknetMintCall_def Let_def decode_mint hexToFeltArray_def loop_payload)
qed


theorem C10_felt_chunks_lossless_witness:
  "is_hex ''00ab'' \<and>
   concat (map (drop 2) (hexToFeltArray ''0x00ab'')) = ''00ab'' \<and>
   concat (map (drop 2) (hexToFeltArray ''00ab'')) = ''00ab'' \<and>
   getChainConfig example_registry STARKNET_DOMAIN_ID = Some starknet_config \<and>
   (\<exists>call. buildStarknetMintCall example_registry ''0x00ab'' ''0xcd'' = Inr call \<and>
      decode_mint_calldata (calldata call) = Some (''00ab'', ''cd''))"
proof -
  have a: "is_hex ''00ab''" by (simp add: is_hex_def digit_value_def)
  have b: "getChainConfig example_registry STARKNET_DOMAIN_ID = Some starknet_config"
    by (simp add: getChainConfig_def example_registry_def STARKNET_DOMAIN_ID_def)
  have c: "js_replace ''0x00ab'' ''0x'' [] = ''00ab''" "js_replace ''0xcd'' ''0x'' [] = ''cd''"
    by (simp_all add: startsWith_def)
  from C10_felt_chunks_lossless [of "''0x00ab''" "''00ab''" example_registry "''0x00ab''" "''0xcd''"]
       a b c
  show ?thesis by auto
qed


section \<open>Address translation\<close>


























section \<open>Initiation and route validation\<close>






lemma toUint256_ok: "0 \<le> a \<Longrightarrow> a < 2 ^ 256 \<Longrightarrow> \<exists>lo hi. toUint256 a = Inr (lo, hi)"
  by (simp add: toUint256_def cairo_uint256_def)













lemma approve_ok:
  assumes "reg STARKNET_DOMAIN_ID = Some sc" and "0 \<le> a" and "a < 2 ^ 256"
  shows "\<exists>c. buildStarknetApproveCall reg sp a = Inr c"
  using assms by (simp add: buildStarknetApproveCall_def getChainConfig_def toUint256_def cairo_uint256_def)

lemma burn_params_simps:
  "b_amount (burnParams p sc a) = a"
  "destinationDomain (burnParams p sc a) = destDomain p"
  "mintRecipient (burnParams p sc a) = p_recipientAddress p"
  "burnToken (burnParams p sc a) = usdc sc"
  "destinationCaller (burnParams p sc a) = None"
  "b_userAddress (burnParams p sc a) = p_userAddress p"
  "maxFee (burnParams p sc a) = Some (if isFastTransfer p = Some False then 0 else 10000)"
  "minFinalityThreshold (burnParams p sc a) = Some (if isFastTransfer p = Some False then 2000 else 1000)"
  by (simp_all add: burnParams_def Let_def)






lemma initiateBridge_success_build:
  assumes "snd (initiateBridge e reg st ins now p) = Inr (bridgeId, txData)"
  shows "\<exists>sc a. getChainConfig reg (sourceDomain p) = Some sc \<and> js_BigInt (p_amount p) = Some a \<and>
           buildBurnTxData e reg sc (burnParams p sc a) = Inr txData \<and> ins = Some bridgeId"
  using assms
  by (auto simp: initiateBridge_def Let_def split: if_splits option.splits sum.splits)




lemma digit_char_eval:
  "digit_char 0 = CHR ''0''" "digit_char 1 = CHR ''1''" "digit_char 2 = CHR ''2''"
  "digit_char 3 = CHR ''3''" "digit_char 4 = CHR ''4''" "digit_char 5 = CHR ''5''"
  "digit_char 6 = CHR ''6''" "digit_char 7 = CHR ''7''" "digit_char 8 = CHR ''8''"
  "digit_char 9 = CHR ''9''" "digit_char (Suc 0) = CHR ''1''"
  by code_simp+

lemma amount_eval: "js_BigInt ''1000000'' = Some 1000000"
  by (simp add: js_BigInt_def trim_def is_space_def parse_radix_def digit_value_def)

lemma show_eval: "show_nat 1000000 = ''1000000''" "show_nat 10000 = ''10000''" "show_nat 0 = ''0''"
  "show_nat 1000 = ''1000''" "show_nat 2000 = ''2000''"
  by (simp_all add: show_nat.simps digit_char_eval)

lemma recipient_eval:
  "evmAddressToU256 ''0x2B4069517957735bE00ceE0fadAE88a26365528f''
     = Inr (''161290657072874832887452128092155630223'', ''725641553'')"
  by (simp add: evmAddressToU256_def toLowerCase_def lower_char_def startsWith_def
        js_BigInt_def trim_def is_space_def parse_radix_def digit_value_def cairo_uint256_def
        show_nat.simps digit_char_eval Let_def)


lemma starknet_route_eval:
  "snd (initiateBridge example_encoders example_registry Map.empty (Some ''id1'') 0 fast_request)
     = Inr (''id1'', fast_payload)"
  by (simp add: fast_payload_def initiateBridge_def isValidBridgePair_def getChainConfig_def example_registry_def
        fast_request_def STARKNET_DOMAIN_ID_def amount_eval burn_params_simps buildBurnTxData_def
        starknet_config_def ethereum_config_def buildStarknetBurnMulticall_def
        buildStarknetApproveCall_def buildStarknetBurnCall_def toUint256_def cairo_uint256_def
        recipient_eval show_eval show_int_def Let_def)


lemma fee_halves:
  "toUint256 (if fast then 10000 else 0) = Inr (if fast then 10000 else 0, 0)"
  by (simp add: toUint256_def cairo_uint256_def)

lemma burnCall_tail:
  assumes "buildStarknetBurnCall reg (burnParams p sc a) = Inr burn"
  shows "drop 8 (calldata burn)
           = (if isFastTransfer p = Some False then [''0'', ''0'', ''2000''] else [''10000'', ''0'', ''1000''])"
proof (cases "isFastTransfer p = Some False")
  case True
  have "toUint256 0 = Inr (0, 0)" by (simp add: toUint256_def cairo_uint256_def)
  with assms True show ?thesis
    unfolding buildStarknetBurnCall_def Let_def
    by (auto simp: burn_params_simps show_eval show_int_def
             split: option.splits sum.splits prod.splits if_splits)
next
  case False
  have "toUint256 10000 = Inr (10000, 0)" by (simp add: toUint256_def cairo_uint256_def)
  with assms False show ?thesis
    unfolding buildStarknetBurnCall_def Let_def
    by (auto simp: burn_params_simps show_eval show_int_def
             split: option.splits sum.splits prod.splits if_splits)
qed

lemma starknet_payload_shape:
  assumes "buildBurnTxData e reg sc (burnParams p sc a) = Inr (StarknetBurn calls)"
  shows "\<exists>approve burn. calls = [approve, burn] \<and>
           buildStarknetBurnCall reg (burnParams p sc a) = Inr burn"
  using assms
  unfolding buildBurnTxData_def buildStarknetBurnMulticall_def
  by (auto split: ChainType.splits option.splits sum.splits)


lemma initiateBridge_starknet_to_starknet:
  assumes "reg STARKNET_DOMAIN_ID = Some sc" and "type sc = starknet"
    and "sourceDomain p = STARKNET_DOMAIN_ID" and "destDomain p = STARKNET_DOMAIN_ID"
    and "js_BigInt (p_amount p) = Some a" and "0 \<le> a" and "a < 2 ^ 256"
  shows "initiateBridge e reg st (Some bridgeId) now p
           = (st(bridgeId \<mapsto> new_row p now), Inl UnsupportedRoute)"
proof -
  have "\<exists>ac. buildStarknetApproveCall reg (tokenMessenger sc) a = Inr ac"
    using assms(1,6,7) by (rule approve_ok)
  then obtain ac where ac: "buildStarknetApproveCall reg (tokenMessenger sc) a = Inr ac" by blast
  from toUint256_ok [OF assms(6,7)] obtain lo hi where am: "toUint256 a = Inr (lo, hi)" by blast
  have bc: "buildStarknetBurnCall reg (burnParams p sc a) = Inl UnsupportedRoute"
    using assms(1,2,4) am
    by (simp add: buildStarknetBurnCall_def getChainConfig_def burn_params_simps)
  have "buildBurnTxData e reg sc (burnParams p sc a) = Inl UnsupportedRoute"
    using assms(1,2) ac bc
    by (simp add: buildBurnTxData_def buildStarknetBurnMulticall_def getChainConfig_def burn_params_simps)
  with assms(1,3,4,5) show ?thesis
    by (simp add: initiateBridge_def isValidBridgePair_def getChainConfig_def Let_def)
qed









section \<open>Finality threshold and fee\<close>

text \<open>
  C6. Whenever \<open>initiateBridge\<close> returns a payload, the payload was built from parameters whose
  finality threshold and maximum fee depend on the fast flag only: 2000 and 0 when
  \<^verbatim>\<open>isFastTransfer\<close> is \<^verbatim>\<open>false\<close>, 1000 and 10000 otherwise. In a Starknet payload they are the
  last three calldata entries of the burn call (fee low, fee high, threshold).
\<close>

theorem C6_finality_selection:
  assumes "snd (initiateBridge e reg st ins now p) = Inr (bridgeId, txData)"
  shows "\<exists>sc a. getChainConfig reg (sourceDomain p) = Some sc \<and> js_BigInt (p_amount p) = Some a \<and>
           buildBurnTxData e reg sc (burnParams p sc a) = Inr txData \<and>
           minFinalityThreshold (burnParams p sc a)
             = Some (if isFastTransfer p = Some False then 2000 else 1000) \<and>
           maxFee (burnParams p sc a)
             = Some (if isFastTransfer p = Some False then 0 else 10000) \<and>
           (\<forall>calls. txData = StarknetBurn calls \<longrightarrow>
              (\<exists>approve burn. calls = [approve, burn] \<and>
                 drop 8 (calldata burn)
                   = (if isFastTransfer p = Some False then [''0'', ''0'', ''2000'']
                      else [''10000'', ''0'', ''1000''])))"
proof -
  from initiateBridge_success_build [OF assms] obtain sc a where
    sc: "getChainConfig reg (sourceDomain p) = Some sc" and a: "js_BigInt (p_amount p) = Some a"
    and b: "buildBurnTxData e reg sc (burnParams p sc a) = Inr txData" by blast
  have tail: "\<exists>approve burn. calls = [approve, burn] \<and>
                 drop 8 (calldata burn)
                   = (if isFastTransfer p = Some False then [''0'', ''0'', ''2000'']
                      else [''10000'', ''0'', ''1000''])"
    if "txData = StarknetBurn calls" for calls
  proof -
    from b that have "buildBurnTxData e reg sc (burnParams p sc a) = Inr (StarknetBurn calls)" by simp
    then have "\<exists>approve burn. calls = [approve, burn] \<and>
           buildStarknetBurnCall reg (burnParams p sc a) = Inr burn"
      by (rule starknet_payload_shape)
    then obtain approve burn where c: "calls = [approve, burn]"
      and bc: "buildStarknetBurnCall reg (burnParams p sc a) = Inr burn" by blast
    from bc have "drop 8 (calldata burn)
           = (if isFastTransfer p = Some False then [''0'', ''0'', ''2000''] else [''10000'', ''0'', ''1000''])"
      by (rule burnCall_tail)
    with c show ?thesis by blast
  qed
  from sc a b tail show ?thesis
    by (intro exI [of _ sc] exI [of _ a]) (simp add: burn_params_simps)
qed


theorem C6_finality_selection_witness:
  "snd (initiateBridge example_encoders example_registry Map.empty (Some ''id1'') 0 fast_request)
     = Inr (''id1'', fast_payload) \<and>
   (\<exists>sc a. getChainConfig example_registry (sourceDomain fast_request) = Some sc \<and>
           js_BigInt (p_amount fast_request) = Some a \<and>
           buildBurnTxData example_encoders example_registry sc (burnParams fast_request sc a)
             = Inr fast_payload \<and>
           minFinalityThreshold (burnParams fast_request sc a)
             = Some (if isFastTransfer fast_request = Some False then 2000 else 1000) \<and>
           maxFee (burnParams fast_request sc a)
             = Some (if isFastTransfer fast_request = Some False then 0 else 10000) \<and>
           (\<forall>calls. fast_payload = StarknetBurn calls \<longrightarrow>
              (\<exists>approve burn. calls = [approve, burn] \<and>
                 drop 8 (calldata burn)
                   = (if isFastTransfer fast_request = Some False then [''0'', ''0'', ''2000'']
                      else [''10000'', ''0'', ''1000'']))))"
  using starknet_route_eval C6_finality_selection [OF starknet_route_eval] by (rule conjI)

end
